theory Spec2Isabelle
  imports
    Main
    "HOL-Library.Sublist"
    "HOL-Library.Char_ord"
    "HOL-Library.List_Lexorder"
    "HOL-Library.Multiset"
    "HOL-Library.Word"
begin

section \<open>Strings and JavaScript values\<close>

text \<open>
  The build script works on JavaScript strings and Node buffers. Paths, and the strings
  made of paths, are modelled as \<^typ>\<open>string\<close> (a list of characters, one per code
  unit): every path of the build is ASCII, where code units, UTF-8 bytes and characters
  coincide. A buffer is a \<^typ>\<open>string\<close> too, one character per byte. The text of a
  file need not be ASCII: it is a list of 16-bit code units, encoded as UTF-8 where the
  script turns it into bytes.
  \<^item> \<open>s.startsWith(p)\<close> is \<open>startsWith s p\<close>, \<open>s.endsWith(p)\<close> is \<open>endsWith s p\<close>;
  \<^item> \<open>s.substr(n)\<close> (one argument, \<open>n \<ge> 0\<close>) is \<open>substr s n\<close>: past the end it is the
    empty string, as \<^const>\<open>drop\<close> is;
  \<^item> \<open>xs.join(sep)\<close> is \<open>joinWith sep xs\<close>;
  \<^item> \<open>xs.sort()\<close> on strings compares code units lexicographically; it is
    \<^const>\<open>sort\<close> on the lexicographic order of character lists.
\<close>

definition startsWith :: "string \<Rightarrow> string \<Rightarrow> bool" where
  "startsWith s p = prefix p s"

definition endsWith :: "string \<Rightarrow> string \<Rightarrow> bool" where
  "endsWith s p = suffix p s"

definition substr :: "string \<Rightarrow> nat \<Rightarrow> string" where
  "substr s n = drop n s"

fun joinWith :: "string \<Rightarrow> string list \<Rightarrow> string" where
  "joinWith sep [] = []"
| "joinWith sep [x] = x"
| "joinWith sep (x # y # ys) = x @ sep @ joinWith sep (y # ys)"

fun splitOn :: "char \<Rightarrow> string \<Rightarrow> string list" where
  "splitOn sep [] = [[]]"
| "splitOn sep (c # cs) =
     (if c = sep then [] # splitOn sep cs
      else (case splitOn sep cs of [] \<Rightarrow> [[c]] | s # ss \<Rightarrow> (c # s) # ss))"

text \<open>
  A thrown JavaScript error: its \<open>code\<close> property (set by Node on filesystem errors,
  absent on \<open>new Error(msg)\<close>) and its message.
\<close>

datatype error = Error (code: "string option") (message: string)

text \<open>
  What \<open>write\<close> receives as content: a JavaScript string, which is a list of UTF-16 code
  units, or a \<open>Buffer\<close>, which is a list of bytes (a byte is a \<^typ>\<open>char\<close>).
\<close>

datatype content = Text "16 word list" | Binary string

text \<open>
  The UTF-8 encoding of a JavaScript string, as \<open>Buffer.from(s)\<close> and
  \<open>fs.writeFile(file, s, "utf8")\<close> compute it: one byte for a code unit below \<open>0x80\<close>,
  two below \<open>0x800\<close>, four for a high surrogate followed by a low one, three for
  any other code unit; a surrogate that stands alone is encoded as the replacement
  character \<open>U+FFFD\<close>.
\<close>

definition replacementBytes :: string where
  "replacementBytes = [CHR 0xEF, CHR 0xBF, CHR 0xBD]"

fun utf8 :: "16 word list \<Rightarrow> string" where
  "utf8 [] = []"
| "utf8 (u # us) =
     (let n = unat u in
      if n < 0x80 then char_of n # utf8 us
      else if n < 0x800 then char_of (0xC0 + n div 64) # char_of (0x80 + n mod 64) # utf8 us
      else if 0xD800 \<le> n \<and> n < 0xDC00 then
        (case us of
           [] \<Rightarrow> replacementBytes
         | l # us' \<Rightarrow>
             let m = unat l in
             if 0xDC00 \<le> m \<and> m < 0xE000 then
               let cp = 0x10000 + (n - 0xD800) * 1024 + (m - 0xDC00)
               in char_of (0xF0 + cp div 262144) # char_of (0x80 + cp div 4096 mod 64) #
                  char_of (0x80 + cp div 64 mod 64) # char_of (0x80 + cp mod 64) # utf8 us'
             else replacementBytes @ utf8 us)
      else if 0xDC00 \<le> n \<and> n < 0xE000 then replacementBytes @ utf8 us
      else char_of (0xE0 + n div 4096) # char_of (0x80 + n div 64 mod 64) #
           char_of (0x80 + n mod 64) # utf8 us)"

text \<open>The JavaScript string whose code units are the given characters.\<close>

definition codeUnits :: "string \<Rightarrow> 16 word list" where
  "codeUnits s = map (\<lambda>c. of_nat (of_char c)) s"

text \<open>\<open>Buffer.from(content)\<close>: the bytes of a buffer, the UTF-8 bytes of a string.\<close>

fun Buffer_from :: "content \<Rightarrow> string" where
  "Buffer_from (Text s) = utf8 s"
| "Buffer_from (Binary b) = b"

section \<open>Node's \<open>path\<close> module (POSIX)\<close>

text \<open>
  The script imports \<open>path\<close> from Node's standard library, which is outside the
  repository. The functions the registry calls are modelled here after the behaviour of
  Node's POSIX implementation, on lists of characters and path segments.
\<close>

definition path_isAbsolute :: "string \<Rightarrow> bool" where
  "path_isAbsolute p = (case p of [] \<Rightarrow> False | c # _ \<Rightarrow> c = CHR ''/'')"

text \<open>
  Node's \<open>normalizeString\<close>: empty and \<open>.\<close> segments are dropped, a \<open>..\<close> removes the
  segment before it, and is kept only where there is none to remove and the path may
  climb above its start (\<open>allowAboveRoot\<close>).
\<close>

fun normalizeSegments :: "bool \<Rightarrow> string list \<Rightarrow> string list \<Rightarrow> string list" where
  "normalizeSegments allowAboveRoot res [] = res"
| "normalizeSegments allowAboveRoot res (s # ss) =
     (if s = [] \<or> s = ''.'' then normalizeSegments allowAboveRoot res ss
      else if s = ''..'' then
        (if res \<noteq> [] \<and> last res \<noteq> ''..'' then normalizeSegments allowAboveRoot (butlast res) ss
         else if allowAboveRoot then normalizeSegments allowAboveRoot (res @ [''..'']) ss
         else normalizeSegments allowAboveRoot res ss)
      else normalizeSegments allowAboveRoot (res @ [s]) ss)"

definition normalizeString :: "bool \<Rightarrow> string \<Rightarrow> string" where
  "normalizeString allowAboveRoot p =
     joinWith ''/'' (normalizeSegments allowAboveRoot [] (splitOn CHR ''/'' p))"

definition path_normalize :: "string \<Rightarrow> string" where
  "path_normalize p =
     (if p = [] then ''.''
      else
        let isAbsolute = (hd p = CHR ''/'');
            trailingSeparator = (last p = CHR ''/'');
            q = normalizeString (\<not> isAbsolute) p
        in if q = [] then (if isAbsolute then ''/'' else if trailingSeparator then ''./'' else ''.'')
           else (if isAbsolute then ''/'' else []) @ q @ (if trailingSeparator then ''/'' else []))"

text \<open>\<open>path.join(...args)\<close>: the non-empty arguments joined by \<open>/\<close>, then normalized.\<close>

definition path_join :: "string list \<Rightarrow> string" where
  "path_join args =
     (let joined = joinWith ''/'' (filter (\<lambda>a. a \<noteq> []) args)
      in if joined = [] then ''.'' else path_normalize joined)"

text \<open>
  \<open>path.resolve(p)\<close> with one argument: \<open>p\<close> is taken relative to the working
  directory \<open>cwd\<close> (\<open>process.cwd()\<close>, an absolute path) unless it is absolute itself; the
  result is absolute, normalized, and has no trailing slash.
\<close>

definition path_resolve :: "string \<Rightarrow> string \<Rightarrow> string" where
  "path_resolve cwd p =
     (let resolvedPath =
        (if path_isAbsolute p then p @ ''/''
         else if p = [] then cwd @ ''/''
         else cwd @ ''/'' @ p @ ''/'')
      in ''/'' @ normalizeString False resolvedPath)"

text \<open>The last portion of a path, trailing slashes ignored, and those trailing slashes.\<close>

definition lastPortion :: "string \<Rightarrow> string" where
  "lastPortion p =
     rev (takeWhile (\<lambda>c. c \<noteq> CHR ''/'') (dropWhile (\<lambda>c. c = CHR ''/'') (rev p)))"

definition trailingSlashes :: "string \<Rightarrow> string" where
  "trailingSlashes p = takeWhile (\<lambda>c. c = CHR ''/'') (rev p)"

text \<open>
  \<open>path.dirname(p)\<close>: everything before the slash that precedes the last portion; \<open>.\<close>
  when there is no such slash (\<open>/\<close> for an absolute path).
\<close>

definition path_dirname :: "string \<Rightarrow> string" where
  "path_dirname p =
     (if p = [] then ''.''
      else
        let hasRoot = (hd p = CHR ''/'');
            r = dropWhile (\<lambda>c. c \<noteq> CHR ''/'') (dropWhile (\<lambda>c. c = CHR ''/'') (rev (tl p)));
            endIdx = length r
        in if r = [] then (if hasRoot then ''/'' else ''.'')
           else if hasRoot \<and> endIdx = 1 then ''//''
           else take endIdx p)"

text \<open>
  \<open>path.extname(p)\<close>: from the last \<open>.\<close> of the last portion to its end; empty when
  the last portion has no \<open>.\<close>, when its only \<open>.\<close> is its first character, and for
  \<open>..\<close>.
\<close>

definition path_extname :: "string \<Rightarrow> string" where
  "path_extname p =
     (let base = lastPortion p;
          afterDot = rev (takeWhile (\<lambda>c. c \<noteq> CHR ''.'') (rev base))
      in if CHR ''.'' \<notin> set base then []
         else if length afterDot + 1 = length base then []
         else if base = ''..'' then []
         else CHR ''.'' # afterDot)"

text \<open>
  \<open>path.basename(p, ext)\<close>: the last portion of \<open>p\<close>, without the suffix \<open>ext\<close> when it
  ends with it and is more than it. (Where the last portion is itself a proper suffix of
  \<open>ext\<close>, Node returns it with the trailing slashes of \<open>p\<close>.)
\<close>

definition path_basename :: "string \<Rightarrow> string \<Rightarrow> string" where
  "path_basename p ext =
     (if ext \<noteq> [] \<and> length ext \<le> length p then
        (if ext = p then []
         else
           let base = lastPortion p
           in if suffix ext base then
                (if ext = base then base else take (length base - length ext) base)
              else if suffix base ext then base @ trailingSlashes p
              else base)
      else lastPortion p)"

section \<open>The content hasher\<close>

text \<open>
  \<open>contentHash\<close> feeds its argument to the 32-bit xxHash of the \<open>xxhashjs\<close> package with
  seed 0 and returns the digest, an unsigned 32-bit integer. The package is not part of
  the repository: \<open>h32 seed bytes\<close> stands for
  \<open>new xxhash.h32(seed).update(bytes).digest()\<close>. A string and a buffer with the same
  bytes hash alike.
\<close>

definition contentHash :: "(32 word \<Rightarrow> string \<Rightarrow> 32 word) \<Rightarrow> string \<Rightarrow> 32 word" where
  "contentHash h32 str = h32 0 str"

text \<open>
  A template literal renders a digest by its \<open>toString()\<close>: the decimal digits of the
  number.
\<close>

definition digitChar :: "nat \<Rightarrow> char" where
  "digitChar d = ''0123456789'' ! (d mod 10)"

fun toDecimal :: "nat \<Rightarrow> string" where
  "toDecimal n = (if n < 10 then [digitChar n] else toDecimal (n div 10) @ [digitChar n])"

declare toDecimal.simps [simp del]

definition toString :: "32 word \<Rightarrow> string" where
  "toString h = toDecimal (unat h)"

section \<open>The asset registry: class \<open>AssetMap\<close>\<close>

text \<open>
  \<open>_assets\<close> is a JavaScript \<open>Map\<close>: it iterates in insertion order, and \<open>set\<close> on a
  key it holds replaces the value where the key stands. It is an association list with
  distinct keys, \<open>Map_set\<close> its \<open>set\<close> and \<^const>\<open>map_of\<close> its \<open>get\<close>.

  The methods keep their names, but for those a name here cannot have: the constructor
  is \<open>newAssetMap\<close> (with the working directory that \<open>path.resolve\<close> reads), \<open>_toRelPath\<close>
  is \<open>toRelPath\<close>, \<open>_create\<close> is \<open>create\<close>, the iterator is \<open>entries\<close>, and the getter
  \<open>size\<close> is \<open>sizeOf\<close>. A method that throws returns \<open>Inl\<close> of the error.
\<close>

record AssetMap =
  targetDir :: string
  assets :: "(string \<times> string) list"

fun Map_set :: "'k \<Rightarrow> 'v \<Rightarrow> ('k \<times> 'v) list \<Rightarrow> ('k \<times> 'v) list" where
  "Map_set k v [] = [(k, v)]"
| "Map_set k v ((k', v') # m) =
     (if k' = k then (k, v) # m else (k', v') # Map_set k v m)"

definition newAssetMap :: "string \<Rightarrow> string \<Rightarrow> AssetMap" where
  "newAssetMap cwd dir = \<lparr>targetDir = path_resolve cwd dir, assets = []\<rparr>"

definition directory :: "AssetMap \<Rightarrow> string" where
  "directory this = targetDir this"

definition toRelPath :: "AssetMap \<Rightarrow> string \<Rightarrow> error + string" where
  "toRelPath this resourcePath =
     (if path_isAbsolute resourcePath then
        (if \<not> startsWith resourcePath (targetDir this) then
           Inl (Error None (''absolute path '' @ resourcePath @
                  '' that is not within target dir '' @ targetDir this))
         else Inr (substr resourcePath (length (targetDir this) + 1)))
      else Inr resourcePath)"

text \<open>
  \<open>_create\<close> changes the registry before \<open>write\<close> awaits the file system, so every
  operation returns its result together with the registry it leaves behind.
\<close>

definition create ::
  "(32 word \<Rightarrow> string \<Rightarrow> 32 word) \<Rightarrow> AssetMap \<Rightarrow> string \<Rightarrow> content \<Rightarrow> (error + string) \<times> AssetMap" where
  "create h32 this resourcePath c =
     (case toRelPath this resourcePath of
        Inl e \<Rightarrow> (Inl e, this)
      | Inr relPath \<Rightarrow>
          let hash = contentHash h32 (Buffer_from c);
              dir = path_dirname relPath;
              extname = path_extname relPath;
              basename = path_basename relPath extname;
              dstRelPath = path_join [dir, basename @ ''-'' @ toString hash @ extname]
          in (Inr dstRelPath, this\<lparr>assets := Map_set relPath dstRelPath (assets this)\<rparr>))"

text \<open>
  \<open>AssetMap.write\<close> is \<open>AssetMap_write\<close> (\<open>write\<close> is a reserved word here).
  The file system is a state \<open>'fs\<close> of any kind; \<open>writeFile fs path bytes\<close> is
  \<open>fs.writeFile\<close> on bytes, which fails with an error or leaves a new state. \<open>fsWrite\<close>
  is the branch on \<open>typeof content\<close> that \<open>write\<close> and \<open>writeUnhashed\<close> share: a string
  is written as its UTF-8 bytes, a buffer as it is.
\<close>

definition fsWrite ::
  "('fs \<Rightarrow> string \<Rightarrow> string \<Rightarrow> error + 'fs) \<Rightarrow> 'fs \<Rightarrow> string \<Rightarrow> content \<Rightarrow> error + 'fs" where
  "fsWrite writeFile fs fullPath c =
     (case c of Text s \<Rightarrow> writeFile fs fullPath (utf8 s) | Binary b \<Rightarrow> writeFile fs fullPath b)"

definition AssetMap_write ::
  "(32 word \<Rightarrow> string \<Rightarrow> 32 word) \<Rightarrow> ('fs \<Rightarrow> string \<Rightarrow> string \<Rightarrow> error + 'fs) \<Rightarrow>
   AssetMap \<Rightarrow> 'fs \<Rightarrow> string \<Rightarrow> content \<Rightarrow> (error + string) \<times> AssetMap \<times> 'fs" where
  "AssetMap_write h32 writeFile this fs resourcePath c =
     (case create h32 this resourcePath c of
        (Inl e, this') \<Rightarrow> (Inl e, this', fs)
      | (Inr relPath, this') \<Rightarrow>
          (case fsWrite writeFile fs (path_join [directory this', relPath]) c of
             Inl e \<Rightarrow> (Inl e, this', fs)
           | Inr fs' \<Rightarrow> (Inr relPath, this', fs')))"

definition writeUnhashed ::
  "('fs \<Rightarrow> string \<Rightarrow> string \<Rightarrow> error + 'fs) \<Rightarrow>
   AssetMap \<Rightarrow> 'fs \<Rightarrow> string \<Rightarrow> content \<Rightarrow> (error + string) \<times> AssetMap \<times> 'fs" where
  "writeUnhashed writeFile this fs resourcePath c =
     (case toRelPath this resourcePath of
        Inl e \<Rightarrow> (Inl e, this, fs)
      | Inr relPath \<Rightarrow>
          let this' = this\<lparr>assets := Map_set relPath relPath (assets this)\<rparr>
          in (case fsWrite writeFile fs (path_join [directory this', relPath]) c of
                Inl e \<Rightarrow> (Inl e, this', fs)
              | Inr fs' \<Rightarrow> (Inr relPath, this', fs')))"

text \<open>
  \<open>resolve\<close> and \<open>isUnhashed\<close> test the looked-up value with \<open>!result\<close>: a missing key
  and the empty string both count as unknown.
\<close>

definition resolve :: "AssetMap \<Rightarrow> string \<Rightarrow> error + string" where
  "resolve this resourcePath =
     (case toRelPath this resourcePath of
        Inl e \<Rightarrow> Inl e
      | Inr relPath \<Rightarrow>
          (case map_of (assets this) relPath of
             Some result \<Rightarrow>
               if result = [] then
                 Inl (Error None (''unknown path: '' @ relPath @ '', only know '' @
                        joinWith '', '' (map fst (assets this))))
               else Inr result
           | None \<Rightarrow>
               Inl (Error None (''unknown path: '' @ relPath @ '', only know '' @
                      joinWith '', '' (map fst (assets this))))))"

definition addSubMap :: "AssetMap \<Rightarrow> AssetMap \<Rightarrow> error + AssetMap" where
  "addSubMap this assetMap =
     (if \<not> startsWith (directory assetMap) (directory this) then
        Inl (Error None (''map directory doesn'' @ [CHR 0x27] @ ''t start with this directory: '' @
               directory assetMap @ '' '' @ directory this))
      else
        let relSubRoot = substr (directory assetMap) (length (directory this) + 1)
        in Inr (this\<lparr>assets :=
                  fold (\<lambda>(key, val). Map_set (path_join [relSubRoot, key]) (path_join [relSubRoot, val]))
                    (assets assetMap) (assets this)\<rparr>))"

definition entries :: "AssetMap \<Rightarrow> (string \<times> string) list" where
  "entries this = assets this"

definition isUnhashed :: "AssetMap \<Rightarrow> string \<Rightarrow> error + bool" where
  "isUnhashed this relPath =
     (case map_of (assets this) relPath of
        Some resolvedPath \<Rightarrow>
          if resolvedPath = [] then Inl (Error None (''Unknown asset: '' @ relPath))
          else Inr (relPath = resolvedPath)
      | None \<Rightarrow> Inl (Error None (''Unknown asset: '' @ relPath)))"

definition sizeOf :: "AssetMap \<Rightarrow> nat" where
  "sizeOf this = length (assets this)"

definition has :: "AssetMap \<Rightarrow> string \<Rightarrow> bool" where
  "has this relPath = (map_of (assets this) relPath \<noteq> None)"

section \<open>The release fingerprint\<close>

text \<open>
  In \<open>build\<close>: the resolved paths of the registry in iteration order, sorted, joined by
  commas and hashed.
\<close>

definition globalHashAssets :: "AssetMap \<Rightarrow> string list" where
  "globalHashAssets assetMap = sort (map (\<lambda>(unresolved, resolved). resolved) (entries assetMap))"

definition globalHash :: "(32 word \<Rightarrow> string \<Rightarrow> 32 word) \<Rightarrow> AssetMap \<Rightarrow> 32 word" where
  "globalHash h32 assetMap = contentHash h32 (joinWith '','' (globalHashAssets assetMap))"

section \<open>The cache tiers of the service worker\<close>

definition SERVICEWORKER_NONCACHED_ASSETS :: "string list" where
  "SERVICEWORKER_NONCACHED_ASSETS = [''hydrogen-legacy.js'', ''olm_legacy.js'', ''sw.js'']"

definition isPreCached :: "string \<Rightarrow> bool" where
  "isPreCached asset =
     (endsWith asset ''.svg'' \<or>
      endsWith asset ''.png'' \<or>
      endsWith asset ''.css'' \<or>
      endsWith asset ''.wasm'' \<or>
      endsWith asset ''.js'' \<and> asset \<noteq> ''worker.js'')"

text \<open>The three lists \<open>buildServiceWorker\<close> fills while it iterates over the registry.\<close>

record swAssets =
  unhashedPreCachedAssets :: "string list"
  hashedPreCachedAssets :: "string list"
  hashedCachedOnRequestAssets :: "string list"

definition swStep :: "swAssets \<Rightarrow> string \<times> string \<Rightarrow> swAssets" where
  "swStep acc entry =
     (case entry of (unresolved, resolved) \<Rightarrow>
        if unresolved \<in> set SERVICEWORKER_NONCACHED_ASSETS then acc
        else if unresolved = resolved then
          acc\<lparr>unhashedPreCachedAssets := unhashedPreCachedAssets acc @ [resolved]\<rparr>
        else if isPreCached unresolved then
          acc\<lparr>hashedPreCachedAssets := hashedPreCachedAssets acc @ [resolved]\<rparr>
        else
          acc\<lparr>hashedCachedOnRequestAssets := hashedCachedOnRequestAssets acc @ [resolved]\<rparr>)"

definition serviceWorkerAssets :: "AssetMap \<Rightarrow> swAssets" where
  "serviceWorkerAssets assetMap =
     foldl swStep
       \<lparr>unhashedPreCachedAssets = [''index.html''],
        hashedPreCachedAssets = [],
        hashedCachedOnRequestAssets = []\<rparr>
       (entries assetMap)"

text \<open>A string between double quotes, as the placeholders of the templates are written.\<close>

definition quoted :: "string \<Rightarrow> string" where
  "quoted s = [CHR 0x22] @ s @ [CHR 0x22]"

text \<open>
  \<open>buildServiceWorker\<close> as a whole. What it takes from outside the repository is a
  parameter: \<open>replace s pat by\<close> is \<open>s.replace(pat, by)\<close> on the text \<open>s\<close> of the template,
  \<open>stringify\<close> is \<open>JSON.stringify\<close> on a list of strings, \<open>readFile\<close> (which reads a file as
  text) and \<open>writeFile\<close> are those of \<open>fs\<close>.
\<close>

definition buildServiceWorker ::
  "(16 word list \<Rightarrow> string \<Rightarrow> string \<Rightarrow> 16 word list) \<Rightarrow> (string list \<Rightarrow> string) \<Rightarrow>
   ('fs \<Rightarrow> string \<Rightarrow> error + 16 word list) \<Rightarrow> ('fs \<Rightarrow> string \<Rightarrow> string \<Rightarrow> error + 'fs) \<Rightarrow>
   string \<Rightarrow> 32 word \<Rightarrow> AssetMap \<Rightarrow> 'fs \<Rightarrow> (error + unit) \<times> AssetMap \<times> 'fs" where
  "buildServiceWorker replace stringify readFile writeFile projectDir hash assetMap fs =
     (let lists = serviceWorkerAssets assetMap
      in case readFile fs (path_join [projectDir, ''src/service-worker.template.js'']) of
           Inl e \<Rightarrow> (Inl e, assetMap, fs)
         | Inr template \<Rightarrow>
             let s1 = replace template (quoted ''%%GLOBAL_HASH%%'') (quoted (toString hash));
                 s2 = replace s1 (quoted ''%%UNHASHED_PRECACHED_ASSETS%%'')
                        (stringify (unhashedPreCachedAssets lists));
                 s3 = replace s2 (quoted ''%%HASHED_PRECACHED_ASSETS%%'')
                        (stringify (hashedPreCachedAssets lists));
                 swSource = replace s3 (quoted ''%%HASHED_CACHED_ON_REQUEST_ASSETS%%'')
                        (stringify (hashedCachedOnRequestAssets lists))
             in (case writeUnhashed writeFile assetMap fs ''sw.js'' (Text swSource) of
                   (Inl e, assetMap', fs') \<Rightarrow> (Inl e, assetMap', fs')
                 | (Inr relPath, assetMap', fs') \<Rightarrow> (Inr (), assetMap', fs')))"

section \<open>Clearing the target directory\<close>

text \<open>\<open>rmdir fs dir\<close> is \<open>fs.rmdir(dir, {recursive: true})\<close>.\<close>

definition removeDirIfExists ::
  "('fs \<Rightarrow> string \<Rightarrow> error + 'fs) \<Rightarrow> 'fs \<Rightarrow> string \<Rightarrow> error + 'fs" where
  "removeDirIfExists rmdir fs dir =
     (case rmdir fs dir of
        Inr fs' \<Rightarrow> Inr fs'
      | Inl err \<Rightarrow> if code err \<noteq> Some ''ENOENT'' then Inl err else Inr fs)"

section \<open>Notions of the specification\<close>

text \<open>
  The cache tier of a registry entry, in the specification's words (section 4.5): an
  entry whose logical path is on the exclusion list is excluded; else one whose logical
  and hashed path are equal is precached unhashed; else one whose logical path has an
  extension of the precache set (\<open>.svg\<close>, \<open>.png\<close>, \<open>.css\<close>, \<open>.wasm\<close>, and \<open>.js\<close> other
  than the worker script \<open>worker.js\<close>) is precached hashed; any other is cached on
  request. The exclusion list is the one of the script.
\<close>

datatype cacheTier = Excluded | UnhashedPrecache | HashedPrecache | HashedOnRequest

definition precacheExtensions_spec :: "string list" where
  "precacheExtensions_spec = [''.svg'', ''.png'', ''.css'', ''.wasm'', ''.js'']"

definition cacheTier_spec :: "string \<Rightarrow> string \<Rightarrow> cacheTier" where
  "cacheTier_spec logical hashed =
     (if logical \<in> set SERVICEWORKER_NONCACHED_ASSETS then Excluded
      else if logical = hashed then UnhashedPrecache
      else if list_ex (\<lambda>ext. suffix ext logical) precacheExtensions_spec \<and> logical \<noteq> ''worker.js''
        then HashedPrecache
      else HashedOnRequest)"

text \<open>
  A normalized relative path: its segments between slashes are non-empty and none is
  \<open>.\<close> or \<open>..\<close>; so it neither starts nor ends with a slash.
\<close>

definition cleanSegment :: "string \<Rightarrow> bool" where
  "cleanSegment s = (s \<noteq> [] \<and> CHR ''/'' \<notin> set s \<and> s \<noteq> ''.'' \<and> s \<noteq> ''..'')"

definition cleanPath :: "string \<Rightarrow> bool" where
  "cleanPath p = list_all cleanSegment (splitOn CHR ''/'' p)"

section \<open>Splitting and joining strings\<close>

lemma splitOn_nonempty: "splitOn c s \<noteq> []"
  by (induction s) (auto split: list.splits)

lemma splitOn_append: "splitOn c (a @ c # b) = splitOn c a @ splitOn c b"
proof (induction a)
  case Nil
  show ?case by simp
next
  case (Cons x a)
  obtain s ss where "splitOn c a = s # ss"
    using splitOn_nonempty[of c a] by (cases "splitOn c a") auto
  with Cons show ?case by simp
qed

lemma splitOn_no_sep: "c \<notin> set s \<Longrightarrow> splitOn c s = [s]"
  by (induction s) auto

lemma joinWith_Cons_Cons: "joinWith sep ((x # s) # ss) = x # joinWith sep (s # ss)"
  by (cases ss) auto

lemma joinWith_splitOn: "joinWith [c] (splitOn c s) = s"
proof (induction s)
  case Nil
  show ?case by simp
next
  case (Cons x s)
  obtain t ts where t: "splitOn c s = t # ts"
    using splitOn_nonempty[of c s] by (cases "splitOn c s") auto
  with Cons show ?case
    by (simp add: joinWith_Cons_Cons)
qed

lemma splitOn_joinWith:
  "xs \<noteq> [] \<Longrightarrow> \<forall>x\<in>set xs. c \<notin> set x \<Longrightarrow> splitOn c (joinWith [c] xs) = xs"
proof (induction "[c]" xs rule: joinWith.induct)
  case 1
  then show ?case by simp
next
  case (2 x)
  then show ?case by (simp add: splitOn_no_sep)
next
  case (3 x y ys)
  then show ?case by (simp add: splitOn_append splitOn_no_sep)
qed

section \<open>Normalized paths are fixed points of \<open>path.join\<close>\<close>

lemma path_normalize_nonempty: "path_normalize p \<noteq> []"
  by (simp add: path_normalize_def Let_def)

lemma path_join_nonempty: "path_join args \<noteq> []"
  by (simp add: path_join_def Let_def path_normalize_nonempty)

lemma normalizeSegments_clean:
  "list_all cleanSegment segs \<Longrightarrow> normalizeSegments a res segs = res @ segs"
  by (induction segs arbitrary: res) (auto simp: cleanSegment_def)

lemma cleanPath_nonempty: "cleanPath p \<Longrightarrow> p \<noteq> []"
  by (auto simp: cleanPath_def cleanSegment_def)

lemma cleanPath_hd: "cleanPath p \<Longrightarrow> hd p \<noteq> CHR ''/''"
  by (cases p) (auto simp: cleanPath_def cleanSegment_def)

lemma cleanPath_last: "cleanPath p \<Longrightarrow> last p \<noteq> CHR ''/''"
proof
  assume c: "cleanPath p" and l: "last p = CHR ''/''"
  from c have "p \<noteq> []" by (rule cleanPath_nonempty)
  then have "p = butlast p @ [CHR ''/'']" using l by (metis append_butlast_last_id)
  then have "splitOn CHR ''/'' p = splitOn CHR ''/'' (butlast p) @ [[]]"
    using splitOn_append[of "CHR ''/''" "butlast p" "[]"] by simp
  with c show False by (simp add: cleanPath_def cleanSegment_def)
qed

lemma normalizeString_clean: "cleanPath p \<Longrightarrow> normalizeString a p = p"
  by (simp add: normalizeString_def cleanPath_def normalizeSegments_clean joinWith_splitOn)

lemma cleanPath_append: "cleanPath a \<Longrightarrow> cleanPath b \<Longrightarrow> cleanPath (a @ ''/'' @ b)"
  by (simp add: cleanPath_def splitOn_append)

lemma path_normalize_clean: "cleanPath p \<Longrightarrow> path_normalize p = p"
  using cleanPath_nonempty[of p] cleanPath_hd[of p] cleanPath_last[of p]
  by (simp add: path_normalize_def Let_def normalizeString_clean)

lemma path_join_clean:
  assumes "cleanPath a" and "cleanPath b"
  shows "path_join [a, b] = a @ ''/'' @ b"
  using cleanPath_nonempty[OF assms(1)] cleanPath_nonempty[OF assms(2)]
    path_normalize_clean[OF cleanPath_append[OF assms]]
  by (simp add: path_join_def)

lemma cleanPath_segment: "cleanSegment s \<Longrightarrow> cleanPath s"
  by (simp add: cleanPath_def cleanSegment_def splitOn_no_sep)

lemma path_join_dot_clean:
  assumes "cleanSegment s"
  shows "path_join [''.'', s] = s"
proof -
  have s: "s \<noteq> []" "CHR ''/'' \<notin> set s"
    using assms by (auto simp: cleanSegment_def)
  then have "last s \<in> set s" by simp
  with s have l: "last s \<noteq> CHR ''/''" by metis
  have "splitOn CHR ''/'' (''./'' @ s) = [''.'', s]"
    using splitOn_append[of "CHR ''/''" "''.''" s] s by (simp add: splitOn_no_sep)
  then have "normalizeString True (''./'' @ s) = s"
    using assms by (simp add: normalizeString_def cleanSegment_def)
  then show ?thesis
    using s l by (simp add: path_join_def path_normalize_def Let_def)
qed

section \<open>Text as bytes\<close>

lemma utf8_ascii:
  "list_all (\<lambda>c. of_char c < (128 :: nat)) s \<Longrightarrow> utf8 (codeUnits s) = s"
proof (induction s)
  case Nil
  show ?case by (simp add: codeUnits_def)
next
  case (Cons c s)
  have "of_char c < (128 :: nat)" using Cons.prems by simp
  moreover from this have "unat (of_nat (of_char c) :: 16 word) = of_char c"
    by (simp add: unat_of_nat)
  ultimately show ?case
    using Cons by (simp add: codeUnits_def Let_def)
qed

lemma Buffer_from_bytes: "Buffer_from c = (case c of Text s \<Rightarrow> utf8 s | Binary b \<Rightarrow> b)"
  by (cases c) simp_all

section \<open>The registry as a map\<close>

lemma map_of_Map_set: "map_of (Map_set k v m) = (map_of m)(k \<mapsto> v)"
  by (induction m) (auto simp: fun_eq_iff)

lemma keys_Map_set: "fst ` set (Map_set k v m) = insert k (fst ` set m)"
  by (simp add: dom_map_of_conv_image_fst[symmetric] map_of_Map_set)

lemma distinct_Map_set: "distinct (map fst m) \<Longrightarrow> distinct (map fst (Map_set k v m))"
  by (induction m) (auto simp: keys_Map_set)

lemma toRelPath_relative: "\<not> path_isAbsolute p \<Longrightarrow> toRelPath this p = Inr p"
  by (simp add: toRelPath_def)

lemma create_relative:
  assumes "\<not> path_isAbsolute p"
  shows "create h32 this p c =
    (Inr (path_join [path_dirname p,
            path_basename p (path_extname p) @ ''-'' @ toString (contentHash h32 (Buffer_from c)) @ path_extname p]),
     this\<lparr>assets := Map_set p
        (path_join [path_dirname p,
            path_basename p (path_extname p) @ ''-'' @ toString (contentHash h32 (Buffer_from c)) @ path_extname p])
        (assets this)\<rparr>)"
  using assms by (simp add: create_def toRelPath_relative Let_def)

lemma resolve_relative_Some:
  assumes "\<not> path_isAbsolute p" and "map_of (assets this) p = Some r" and "r \<noteq> []"
  shows "resolve this p = Inr r"
  using assms by (simp add: resolve_def toRelPath_relative)

lemma write_relative:
  assumes "\<not> path_isAbsolute p"
    and "dst = path_join [path_dirname p,
            path_basename p (path_extname p) @ ''-'' @ toString (contentHash h32 (Buffer_from c)) @ path_extname p]"
  shows "AssetMap_write h32 writeFile this fs p c =
     (case fsWrite writeFile fs (path_join [directory this, dst]) c of
        Inl e \<Rightarrow> (Inl e, this\<lparr>assets := Map_set p dst (assets this)\<rparr>, fs)
      | Inr fs' \<Rightarrow> (Inr dst, this\<lparr>assets := Map_set p dst (assets this)\<rparr>, fs'))"
  using assms by (simp add: AssetMap_write_def create_relative directory_def split: sum.splits)

section \<open>Round trip of \<open>write\<close> and \<open>resolve\<close>\<close>

text \<open>
  Claim C2. For every registry, every relative logical path \<open>p\<close> and every content
  \<open>c\<close>: when \<open>write(p, c)\<close> returns a path, \<open>resolve(p)\<close> on the registry it leaves
  returns exactly that path. (\<open>write\<close> returns unless the file system refuses the file:
  lemma \<open>write_relative\<close>.)
\<close>

theorem resolve_after_write:
  assumes rel: "\<not> path_isAbsolute p"
    and w: "AssetMap_write h32 writeFile this fs p c = (Inr hashed, this', fs')"
  shows "resolve this' p = Inr hashed"
proof -
  let ?dst = "path_join [path_dirname p,
     path_basename p (path_extname p) @ ''-'' @ toString (contentHash h32 (Buffer_from c)) @ path_extname p]"
  from w have "hashed = ?dst" and "this' = this\<lparr>assets := Map_set p ?dst (assets this)\<rparr>"
    by (auto simp: AssetMap_write_def create_relative[OF rel] split: sum.splits)
  then have "map_of (assets this') p = Some hashed"
    by (simp add: map_of_Map_set)
  moreover have "hashed \<noteq> []"
    using \<open>hashed = ?dst\<close> path_join_nonempty by simp
  ultimately show ?thesis
    using rel by (rule resolve_relative_Some[rotated])
qed

text \<open>
  An instance: the registry of \<open>/target\<close>, a file system that accepts every file and
  keeps the list of what was written, and a digest of 3021891958.
\<close>

theorem resolve_after_write_witness:
  "\<not> path_isAbsolute ''hydrogen.js'' \<and>
   AssetMap_write (\<lambda>seed bytes. 3021891958) (\<lambda>fs file bytes. Inr ((file, bytes) # fs))
     \<lparr>targetDir = ''/target'', assets = []\<rparr> [] ''hydrogen.js'' (Text (codeUnits ''export {}'')) =
     (Inr ''hydrogen-3021891958.js'',
      \<lparr>targetDir = ''/target'', assets = [(''hydrogen.js'', ''hydrogen-3021891958.js'')]\<rparr>,
      [(''/target/hydrogen-3021891958.js'', ''export {}'')]) \<and>
   resolve \<lparr>targetDir = ''/target'', assets = [(''hydrogen.js'', ''hydrogen-3021891958.js'')]\<rparr>
     ''hydrogen.js'' = Inr ''hydrogen-3021891958.js''"
proof -
  have rel: "\<not> path_isAbsolute ''hydrogen.js''"
    by code_simp
  have digest: "toString 3021891958 = ''3021891958''"
    by (simp add: toString_def toDecimal.simps digitChar_def)
  have dir: "path_dirname ''hydrogen.js'' = ''.''"
    by code_simp
  have ext: "path_extname ''hydrogen.js'' = ''.js''"
    by code_simp
  have base: "path_basename ''hydrogen.js'' ''.js'' = ''hydrogen''"
    by code_simp
  have dst: "path_join [''.'', ''hydrogen-3021891958.js''] = ''hydrogen-3021891958.js''"
    by code_simp
  have full: "path_join [''/target'', ''hydrogen-3021891958.js''] = ''/target/hydrogen-3021891958.js''"
    by code_simp
  have w: "AssetMap_write (\<lambda>seed bytes. 3021891958) (\<lambda>fs file bytes. Inr ((file, bytes) # fs))
     \<lparr>targetDir = ''/target'', assets = []\<rparr> [] ''hydrogen.js'' (Text (codeUnits ''export {}'')) =
     (Inr ''hydrogen-3021891958.js'',
      \<lparr>targetDir = ''/target'', assets = [(''hydrogen.js'', ''hydrogen-3021891958.js'')]\<rparr>,
      [(''/target/hydrogen-3021891958.js'', ''export {}'')])"
    by (simp add: AssetMap_write_def create_def toRelPath_def rel digest dir ext base dst full
        contentHash_def fsWrite_def utf8_ascii directory_def Let_def)
  from resolve_after_write[OF rel w] rel w show ?thesis by blast
qed

section \<open>Removing the target directory\<close>

text \<open>
  Claim C9. \<open>removeDirIfExists\<close> succeeds, leaving the file system as it was, when the
  removal fails with code \<open>ENOENT\<close>; it fails with the very error of the removal when
  that error has any other code (or none); and it succeeds when the removal does.
\<close>

theorem removeDirIfExists_ok:
  "(rmdir fs dir = Inl err \<and> code err = Some ''ENOENT'' \<longrightarrow> removeDirIfExists rmdir fs dir = Inr fs) \<and>
   (rmdir fs dir = Inl err \<and> code err \<noteq> Some ''ENOENT'' \<longrightarrow> removeDirIfExists rmdir fs dir = Inl err) \<and>
   (rmdir fs dir = Inr fs' \<longrightarrow> removeDirIfExists rmdir fs dir = Inr fs')"
  by (simp add: removeDirIfExists_def)

theorem removeDirIfExists_ok_witness:
  "removeDirIfExists (\<lambda>fs dir. if dir \<in> set fs then Inr (removeAll dir fs)
       else Inl (Error (Some ''ENOENT'') ''no such file or directory'')) [''/src''] ''/target'' =
     Inr [''/src''] \<and>
   removeDirIfExists (\<lambda>fs dir. Inl (Error (Some ''EACCES'') ''permission denied'')) [''/target''] ''/target'' =
     Inl (Error (Some ''EACCES'') ''permission denied'') \<and>
   removeDirIfExists (\<lambda>fs dir. if dir \<in> set fs then Inr (removeAll dir fs)
       else Inl (Error (Some ''ENOENT'') ''no such file or directory'')) [''/src'', ''/target''] ''/target'' =
     Inr [''/src'']"
proof -
  let ?rm = "\<lambda>fs dir. if dir \<in> set fs then Inr (removeAll dir fs)
       else Inl (Error (Some ''ENOENT'') ''no such file or directory'')"
  let ?deny = "\<lambda>(fs :: string list) (dir :: string). Inl (Error (Some ''EACCES'') ''permission denied'') :: error + string list"
  have a: "?rm [''/src''] ''/target'' = Inl (Error (Some ''ENOENT'') ''no such file or directory'')"
    by simp
  have b: "?deny [''/target''] ''/target'' = Inl (Error (Some ''EACCES'') ''permission denied'')"
    by simp
  have c: "?rm [''/src'', ''/target''] ''/target'' = Inr [''/src'']"
    by simp
  from removeDirIfExists_ok[of ?rm "[''/src'']" "''/target''" "Error (Some ''ENOENT'') ''no such file or directory''"] a
  have 1: "removeDirIfExists ?rm [''/src''] ''/target'' = Inr [''/src'']" by simp
  from removeDirIfExists_ok[of ?deny "[''/target'']" "''/target''" "Error (Some ''EACCES'') ''permission denied''"] b
  have 2: "removeDirIfExists ?deny [''/target''] ''/target'' = Inl (Error (Some ''EACCES'') ''permission denied'')"
    by simp
  from removeDirIfExists_ok[of ?rm "[''/src'', ''/target'']" "''/target''" _ "[''/src'']"] c
  have 3: "removeDirIfExists ?rm [''/src'', ''/target''] ''/target'' = Inr [''/src'']" by simp
  from 1 2 3 show ?thesis by blast
qed

section \<open>The lists of the service worker\<close>

lemma isPreCached_spec:
  "isPreCached asset =
     (list_ex (\<lambda>ext. suffix ext asset) precacheExtensions_spec \<and> asset \<noteq> ''worker.js'')"
proof (cases "asset = ''worker.js''")
  case True
  then show ?thesis
    by (simp add: isPreCached_def endsWith_def suffix_def)
next
  case False
  then show ?thesis
    by (auto simp: isPreCached_def endsWith_def precacheExtensions_spec_def)
qed

lemma swStep_foldl:
  "foldl swStep acc xs =
     acc\<lparr>unhashedPreCachedAssets := unhashedPreCachedAssets acc @
            map snd (filter (\<lambda>(u, r). cacheTier_spec u r = UnhashedPrecache) xs),
         hashedPreCachedAssets := hashedPreCachedAssets acc @
            map snd (filter (\<lambda>(u, r). cacheTier_spec u r = HashedPrecache) xs),
         hashedCachedOnRequestAssets := hashedCachedOnRequestAssets acc @
            map snd (filter (\<lambda>(u, r). cacheTier_spec u r = HashedOnRequest) xs)\<rparr>"
proof (induction xs arbitrary: acc)
  case Nil
  show ?case by simp
next
  case (Cons x xs)
  obtain u r where x: "x = (u, r)" by (cases x)
  show ?case
    unfolding foldl_Cons Cons.IH
    by (simp add: x swStep_def cacheTier_spec_def isPreCached_spec)
qed

lemma serviceWorkerAssets_tiers:
  "serviceWorkerAssets am =
     \<lparr>unhashedPreCachedAssets = ''index.html'' #
        map snd (filter (\<lambda>(u, r). cacheTier_spec u r = UnhashedPrecache) (entries am)),
      hashedPreCachedAssets =
        map snd (filter (\<lambda>(u, r). cacheTier_spec u r = HashedPrecache) (entries am)),
      hashedCachedOnRequestAssets =
        map snd (filter (\<lambda>(u, r). cacheTier_spec u r = HashedOnRequest) (entries am))\<rparr>"
  by (simp add: serviceWorkerAssets_def swStep_foldl)

lemma cacheTier_examples:
  "cacheTier_spec ''index.html'' ''index.html'' = UnhashedPrecache"
  "cacheTier_spec ''hydrogen.js'' ''hydrogen-abc123.js'' = HashedPrecache"
  "cacheTier_spec ''worker.js'' ''worker-def456.js'' = HashedOnRequest"
  "cacheTier_spec ''hydrogen-legacy.js'' ''hydrogen-legacy-ghi789.js'' = Excluded"
  by (simp_all add: cacheTier_spec_def SERVICEWORKER_NONCACHED_ASSETS_def precacheExtensions_spec_def
      suffix_def)

text \<open>
  Claim C4. The lists \<open>buildServiceWorker\<close> fills are the hashed paths of the registry
  entries of each tier, in registry order, where the tier of an entry follows the rules
  in the order of the specification: excluded, else unhashed, else precached by
  extension, else cached on request (the first list after its seed \<open>index.html\<close>). On
  the specification's example, with the names the script gives the files, \<open>index.html\<close>
  is precached unhashed, the application script \<open>hydrogen.js\<close> precached hashed, the
  worker script \<open>worker.js\<close> cached on request, and the legacy script
  \<open>hydrogen-legacy.js\<close> excluded.
\<close>

theorem cache_tier_classification:
  "unhashedPreCachedAssets (serviceWorkerAssets am) =
     ''index.html'' # map snd (filter (\<lambda>(logical, hashed). cacheTier_spec logical hashed = UnhashedPrecache) (entries am)) \<and>
   hashedPreCachedAssets (serviceWorkerAssets am) =
     map snd (filter (\<lambda>(logical, hashed). cacheTier_spec logical hashed = HashedPrecache) (entries am)) \<and>
   hashedCachedOnRequestAssets (serviceWorkerAssets am) =
     map snd (filter (\<lambda>(logical, hashed). cacheTier_spec logical hashed = HashedOnRequest) (entries am)) \<and>
   cacheTier_spec ''index.html'' ''index.html'' = UnhashedPrecache \<and>
   cacheTier_spec ''hydrogen.js'' ''hydrogen-abc123.js'' = HashedPrecache \<and>
   cacheTier_spec ''worker.js'' ''worker-def456.js'' = HashedOnRequest \<and>
   cacheTier_spec ''hydrogen-legacy.js'' ''hydrogen-legacy-ghi789.js'' = Excluded \<and>
   serviceWorkerAssets \<lparr>targetDir = ''/target'', assets =
       [(''index.html'', ''index.html''), (''hydrogen.js'', ''hydrogen-abc123.js''),
        (''worker.js'', ''worker-def456.js''), (''hydrogen-legacy.js'', ''hydrogen-legacy-ghi789.js'')]\<rparr> =
     \<lparr>unhashedPreCachedAssets = [''index.html'', ''index.html''],
      hashedPreCachedAssets = [''hydrogen-abc123.js''],
      hashedCachedOnRequestAssets = [''worker-def456.js'']\<rparr>"
  by (simp add: serviceWorkerAssets_tiers cacheTier_examples entries_def)

section \<open>The seed of the unhashed list\<close>

lemma unhashed_seed:
  "unhashedPreCachedAssets (foldl swStep acc xs) =
     unhashedPreCachedAssets acc @
       map snd (filter (\<lambda>(u, r). u \<notin> set SERVICEWORKER_NONCACHED_ASSETS \<and> u = r) xs)"
proof (induction xs arbitrary: acc)
  case Nil
  show ?case by simp
next
  case (Cons x xs)
  obtain u r where x: "x = (u, r)" by (cases x)
  show ?case
    unfolding foldl_Cons Cons.IH
    by (auto simp: x swStep_def)
qed

lemma swStep_noncached: "u \<in> set SERVICEWORKER_NONCACHED_ASSETS \<Longrightarrow> swStep acc (u, r) = acc"
  by (simp add: swStep_def)

lemma foldl_swStep_skip:
  "foldl swStep acc (filter (\<lambda>(u, r). u \<notin> set SERVICEWORKER_NONCACHED_ASSETS) xs) = foldl swStep acc xs"
proof (induction xs arbitrary: acc)
  case Nil
  show ?case by simp
next
  case (Cons x xs)
  obtain u r where x: "x = (u, r)" by (cases x)
  show ?case
    by (cases "u \<in> set SERVICEWORKER_NONCACHED_ASSETS") (simp_all add: x Cons.IH swStep_noncached)
qed

text \<open>
  Claim C10. For every registry, with or without an entry for \<open>index.html\<close>, the
  unhashed list of \<open>buildServiceWorker\<close> is \<open>index.html\<close> followed by what the registry
  contributes, so its first element is \<open>index.html\<close>; for an empty registry it is
  \<open>index.html\<close> alone. Entries on the exclusion list, \<open>sw.js\<close> among them, contribute to
  no list. That seeded list is what \<open>buildServiceWorker\<close> serializes into the template
  in place of the unhashed placeholder.
\<close>

theorem index_html_seeded:
  "unhashedPreCachedAssets (serviceWorkerAssets am) =
     ''index.html'' # map snd (filter (\<lambda>(u, r). u \<notin> set SERVICEWORKER_NONCACHED_ASSETS \<and> u = r) (entries am)) \<and>
   hd (unhashedPreCachedAssets (serviceWorkerAssets am)) = ''index.html'' \<and>
   unhashedPreCachedAssets (serviceWorkerAssets \<lparr>targetDir = dir, assets = []\<rparr>) = [''index.html''] \<and>
   serviceWorkerAssets (am\<lparr>assets := filter (\<lambda>(u, r). u \<notin> set SERVICEWORKER_NONCACHED_ASSETS) (assets am)\<rparr>) =
     serviceWorkerAssets am \<and>
   ''sw.js'' \<in> set SERVICEWORKER_NONCACHED_ASSETS \<and>
   buildServiceWorker replace stringify readFile writeFile projectDir hash am fs =
     (case readFile fs (path_join [projectDir, ''src/service-worker.template.js'']) of
        Inl e \<Rightarrow> (Inl e, am, fs)
      | Inr template \<Rightarrow>
          (case writeUnhashed writeFile am fs ''sw.js''
             (Text (replace (replace (replace (replace template
                (quoted ''%%GLOBAL_HASH%%'') (quoted (toString hash)))
                (quoted ''%%UNHASHED_PRECACHED_ASSETS%%'')
                  (stringify (''index.html'' #
                     map snd (filter (\<lambda>(u, r). u \<notin> set SERVICEWORKER_NONCACHED_ASSETS \<and> u = r) (entries am)))))
                (quoted ''%%HASHED_PRECACHED_ASSETS%%'')
                  (stringify (hashedPreCachedAssets (serviceWorkerAssets am))))
                (quoted ''%%HASHED_CACHED_ON_REQUEST_ASSETS%%'')
                  (stringify (hashedCachedOnRequestAssets (serviceWorkerAssets am))))) of
             (Inl e, am', fs') \<Rightarrow> (Inl e, am', fs')
           | (Inr relPath, am', fs') \<Rightarrow> (Inr (), am', fs')))"
proof -
  have seed: "unhashedPreCachedAssets (serviceWorkerAssets am) =
     ''index.html'' # map snd (filter (\<lambda>(u, r). u \<notin> set SERVICEWORKER_NONCACHED_ASSETS \<and> u = r) (entries am))"
    for am
    by (simp add: serviceWorkerAssets_def unhashed_seed)
  have skip: "serviceWorkerAssets (am\<lparr>assets := filter (\<lambda>(u, r). u \<notin> set SERVICEWORKER_NONCACHED_ASSETS) (assets am)\<rparr>) =
     serviceWorkerAssets am"
    by (simp add: serviceWorkerAssets_def entries_def foldl_swStep_skip)
  have sw: "''sw.js'' \<in> set SERVICEWORKER_NONCACHED_ASSETS"
    by (simp add: SERVICEWORKER_NONCACHED_ASSETS_def)
  have build: "buildServiceWorker replace stringify readFile writeFile projectDir hash am fs =
     (case readFile fs (path_join [projectDir, ''src/service-worker.template.js'']) of
        Inl e \<Rightarrow> (Inl e, am, fs)
      | Inr template \<Rightarrow>
          (case writeUnhashed writeFile am fs ''sw.js''
             (Text (replace (replace (replace (replace template
                (quoted ''%%GLOBAL_HASH%%'') (quoted (toString hash)))
                (quoted ''%%UNHASHED_PRECACHED_ASSETS%%'')
                  (stringify (''index.html'' #
                     map snd (filter (\<lambda>(u, r). u \<notin> set SERVICEWORKER_NONCACHED_ASSETS \<and> u = r) (entries am)))))
                (quoted ''%%HASHED_PRECACHED_ASSETS%%'')
                  (stringify (hashedPreCachedAssets (serviceWorkerAssets am))))
                (quoted ''%%HASHED_CACHED_ON_REQUEST_ASSETS%%'')
                  (stringify (hashedCachedOnRequestAssets (serviceWorkerAssets am))))) of
             (Inl e, am', fs') \<Rightarrow> (Inl e, am', fs')
           | (Inr relPath, am', fs') \<Rightarrow> (Inr (), am', fs')))"
    unfolding buildServiceWorker_def Let_def seed by (rule refl)
  show ?thesis
    using seed[of am] seed[of "\<lparr>targetDir = dir, assets = []\<rparr>"] skip sw build
    by (simp add: entries_def)
qed

section \<open>Digests as text\<close>

lemma digitChar_digit: "digitChar d \<in> set ''0123456789''"
proof -
  have "d mod 10 < length ''0123456789''" by simp
  then show ?thesis unfolding digitChar_def by (rule nth_mem)
qed

lemma toDecimal_digits: "set (toDecimal n) \<subseteq> set ''0123456789''"
proof (induction n rule: toDecimal.induct)
  case (1 n)
  show ?case
  proof (cases "n < 10")
    case True
    then have "toDecimal n = [digitChar n]" by (simp add: toDecimal.simps[of n])
    then show ?thesis using digitChar_digit[of n] by simp
  next
    case False
    then have "toDecimal n = toDecimal (n div 10) @ [digitChar n]" by (simp add: toDecimal.simps[of n])
    then show ?thesis using 1[OF False] digitChar_digit[of n] by simp
  qed
qed

lemma toString_no_slash: "CHR ''/'' \<notin> set (toString h)"
  using toDecimal_digits[of "unat h"] by (auto simp: toString_def)

lemma digitChar_eq_iff: "digitChar a = digitChar b \<longleftrightarrow> a mod 10 = b mod 10"
proof -
  have d: "distinct ''0123456789''" by simp
  have "a mod 10 < length ''0123456789''" "b mod 10 < length ''0123456789''" by simp_all
  with d show ?thesis
    unfolding digitChar_def by (rule nth_eq_iff_index_eq)
qed

lemma toDecimal_nonempty: "toDecimal n \<noteq> []"
  by (subst toDecimal.simps) simp

lemma toDecimal_inj: "toDecimal a = toDecimal b \<Longrightarrow> a = b"
proof (induction a arbitrary: b rule: toDecimal.induct)
  case (1 a)
  show ?case
  proof (cases "a < 10")
    case True
    then have a: "toDecimal a = [digitChar a]" by (simp add: toDecimal.simps[of a])
    show ?thesis
    proof (cases "b < 10")
      case True
      with a "1.prems" have "digitChar a = digitChar b" by (simp add: toDecimal.simps[of b])
      then have "a mod 10 = b mod 10" by (simp add: digitChar_eq_iff)
      with \<open>a < 10\<close> \<open>b < 10\<close> show ?thesis by simp
    next
      case False
      then have "toDecimal b = toDecimal (b div 10) @ [digitChar b]"
        by (simp add: toDecimal.simps[of b])
      with a "1.prems" have "toDecimal (b div 10) = []" by simp
      then show ?thesis using toDecimal_nonempty by blast
    qed
  next
    case False
    then have a: "toDecimal a = toDecimal (a div 10) @ [digitChar a]"
      by (simp add: toDecimal.simps[of a])
    show ?thesis
    proof (cases "b < 10")
      case True
      then have "toDecimal b = [digitChar b]" by (simp add: toDecimal.simps[of b])
      with a "1.prems" have "toDecimal (a div 10) = []" by simp
      then show ?thesis using toDecimal_nonempty by blast
    next
      case bf: False
      then have "toDecimal b = toDecimal (b div 10) @ [digitChar b]"
        by (simp add: toDecimal.simps[of b])
      with a "1.prems" have t: "toDecimal (a div 10) = toDecimal (b div 10)"
        and d: "digitChar a = digitChar b" by simp_all
      from "1.IH"[OF False t] have "a div 10 = b div 10" .
      moreover from d have "a mod 10 = b mod 10" by (simp add: digitChar_eq_iff)
      ultimately show ?thesis by (metis div_mult_mod_eq)
    qed
  qed
qed

lemma toString_eq_iff: "toString a = toString b \<longleftrightarrow> a = b"
proof
  assume "toString a = toString b"
  then have "unat a = unat b"
    unfolding toString_def by (rule toDecimal_inj)
  then show "a = b" by (simp add: word_unat_eq_iff)
next
  assume "a = b"
  then show "toString a = toString b" by simp
qed

section \<open>The parts of a normalized path\<close>

lemma lastPortion_append:
  assumes "name \<noteq> []" and "CHR ''/'' \<notin> set name"
  shows "lastPortion (d @ ''/'' @ name) = name"
proof -
  have "hd (rev name) \<in> set name"
    using assms by (simp add: hd_rev)
  then have l: "hd (rev name) \<noteq> CHR ''/''"
    using assms by auto
  have "rev name \<noteq> []" using assms by simp
  then have 1: "dropWhile (\<lambda>c. c = CHR ''/'') (rev name @ CHR ''/'' # rev d) = rev name @ CHR ''/'' # rev d"
    using l by (cases "rev name") auto
  have 2: "takeWhile (\<lambda>c. c \<noteq> CHR ''/'') (rev name @ CHR ''/'' # rev d) = rev name"
    using assms by (auto simp: takeWhile_tail)
  have 3: "rev (d @ ''/'' @ name) = rev name @ CHR ''/'' # rev d" by simp
  show ?thesis unfolding lastPortion_def 3 1 2 by simp
qed

lemma lastPortion_segment:
  assumes "name \<noteq> []" and "CHR ''/'' \<notin> set name"
  shows "lastPortion name = name"
proof -
  have "hd (rev name) \<in> set name"
    using assms by (simp add: hd_rev)
  then have l: "hd (rev name) \<noteq> CHR ''/''"
    using assms by auto
  have "rev name \<noteq> []" using assms by simp
  then have 1: "dropWhile (\<lambda>c. c = CHR ''/'') (rev name) = rev name"
    using l by (cases "rev name") auto
  have 2: "takeWhile (\<lambda>c. c \<noteq> CHR ''/'') (rev name) = rev name"
    using assms by (auto simp: takeWhile_eq_all_conv)
  show ?thesis unfolding lastPortion_def 1 2 by simp
qed

lemma path_dirname_append:
  assumes d: "cleanPath d" and "name \<noteq> []" and "CHR ''/'' \<notin> set name"
  shows "path_dirname (d @ ''/'' @ name) = d"
proof -
  have dne: "d \<noteq> []" using d by (rule cleanPath_nonempty)
  have root: "hd d \<noteq> CHR ''/''" using d by (rule cleanPath_hd)
  have "hd (rev name) \<in> set name"
    using assms by (simp add: hd_rev)
  then have l: "hd (rev name) \<noteq> CHR ''/''"
    using assms by auto
  have rn: "rev name \<noteq> []" using assms by simp
  have tl: "rev (tl (d @ ''/'' @ name)) = rev name @ CHR ''/'' # rev (tl d)"
    using dne by simp
  have 1: "dropWhile (\<lambda>c. c = CHR ''/'') (rev name @ CHR ''/'' # rev (tl d)) = rev name @ CHR ''/'' # rev (tl d)"
    using rn l by (cases "rev name") auto
  have 2: "dropWhile (\<lambda>c. c \<noteq> CHR ''/'') (rev name @ CHR ''/'' # rev (tl d)) = CHR ''/'' # rev (tl d)"
    using assms by (auto simp: dropWhile_append3)
  have len: "Suc (length (tl d)) = length d" using dne by (cases d) auto
  show ?thesis
    unfolding path_dirname_def tl Let_def 1 2
    using dne root len by simp
qed

lemma path_dirname_segment:
  assumes "name \<noteq> []" and "CHR ''/'' \<notin> set name"
  shows "path_dirname name = ''.''"
proof -
  obtain c cs where n: "name = c # cs"
    using assms by (cases name) auto
  have "\<forall>x\<in>set (dropWhile (\<lambda>c. c = CHR ''/'') (rev cs)). x \<noteq> CHR ''/''"
  proof
    fix x
    assume "x \<in> set (dropWhile (\<lambda>c. c = CHR ''/'') (rev cs))"
    then have "x \<in> set (rev cs)" by (rule set_dropWhileD)
    then show "x \<noteq> CHR ''/''" using assms n by auto
  qed
  then have r: "dropWhile (\<lambda>c. c \<noteq> CHR ''/'') (dropWhile (\<lambda>c. c = CHR ''/'') (rev cs)) = []"
    by (simp only: dropWhile_eq_Nil_conv)
  have c: "c \<noteq> CHR ''/''" using assms n by auto
  show ?thesis
    unfolding path_dirname_def n Let_def list.sel r
    using c by simp
qed

lemma path_extname_base:
  assumes "lastPortion p = b @ CHR ''.'' # e" and "b \<noteq> []" and "b \<noteq> ''.''" and "CHR ''.'' \<notin> set e"
  shows "path_extname p = CHR ''.'' # e"
proof -
  have "takeWhile (\<lambda>c. c \<noteq> CHR ''.'') (rev e @ CHR ''.'' # rev b) = rev e"
    using assms by (auto simp: takeWhile_tail)
  moreover have "b @ CHR ''.'' # e \<noteq> ''..''"
    using assms by (cases b) (auto simp: append_eq_Cons_conv)
  ultimately show ?thesis
    using assms by (simp add: path_extname_def)
qed

lemma path_basename_base:
  assumes "lastPortion p = b @ ext" and "b \<noteq> []" and "ext \<noteq> []"
  shows "path_basename p ext = b"
proof -
  have "length (takeWhile (\<lambda>c. c \<noteq> CHR ''/'') (dropWhile (\<lambda>c. c = CHR ''/'') (rev p)))
      \<le> length (dropWhile (\<lambda>c. c = CHR ''/'') (rev p))"
    by (rule length_takeWhile_le)
  also have "\<dots> \<le> length (rev p)"
    by (rule length_dropWhile_le)
  finally have "length (lastPortion p) \<le> length p"
    by (simp add: lastPortion_def)
  then have 1: "length ext \<le> length p" and 2: "ext \<noteq> p" using assms by auto
  show ?thesis
    using assms 1 2 by (simp add: path_basename_def suffix_def)
qed

section \<open>The shape of a hashed path\<close>

lemma hashedName_clean:
  assumes "cleanSegment b" and "CHR ''/'' \<notin> set ext"
  shows "cleanSegment (b @ CHR ''-'' # toString h @ ext)"
proof -
  define name where "name = b @ CHR ''-'' # toString h @ ext"
  have mem: "CHR ''-'' \<in> set name" by (simp add: name_def)
  have 1: "name \<noteq> ''.''"
  proof
    assume "name = ''.''"
    with mem show False by simp
  qed
  have 2: "name \<noteq> ''..''"
  proof
    assume "name = ''..''"
    with mem show False by simp
  qed
  have "CHR ''/'' \<notin> set name" "name \<noteq> []"
    using assms toString_no_slash[of h] by (auto simp: name_def cleanSegment_def)
  with 1 2 show ?thesis
    unfolding name_def[symmetric] by (simp add: cleanSegment_def)
qed

lemma cleanPath_not_absolute: "cleanPath p \<Longrightarrow> \<not> path_isAbsolute p"
  using cleanPath_hd[of p] cleanPath_nonempty[of p]
  by (cases p) (auto simp: path_isAbsolute_def)

lemma create_in_directory:
  assumes d: "cleanPath d" and b: "cleanSegment b" and e: "CHR ''/'' \<notin> set e" "CHR ''.'' \<notin> set e"
  shows "fst (create h32 this (d @ CHR ''/'' # b @ CHR ''.'' # e) c) =
     Inr (d @ CHR ''/'' # b @ CHR ''-'' # toString (contentHash h32 (Buffer_from c)) @ CHR ''.'' # e)"
proof -
  define name where "name = b @ CHR ''.'' # e"
  define p where "p = d @ ''/'' @ name"
  define hashed where "hashed = b @ CHR ''-'' # toString (contentHash h32 (Buffer_from c)) @ CHR ''.'' # e"
  have name: "name \<noteq> []" "CHR ''/'' \<notin> set name"
    using b e by (auto simp: cleanSegment_def name_def)
  have bne: "b \<noteq> []" "b \<noteq> ''.''" using b by (auto simp: cleanSegment_def)
  have lp: "lastPortion p = b @ CHR ''.'' # e"
    unfolding p_def using lastPortion_append[OF name, of d] by (simp add: name_def)
  have dir: "path_dirname p = d"
    unfolding p_def using d name by (rule path_dirname_append)
  have ext: "path_extname p = CHR ''.'' # e"
    using lp bne e(2) by (rule path_extname_base)
  have base: "path_basename p (CHR ''.'' # e) = b"
    using lp bne(1) by (rule path_basename_base) simp
  have "\<not> path_isAbsolute d" using d by (rule cleanPath_not_absolute)
  then have rel: "\<not> path_isAbsolute p"
    using cleanPath_nonempty[OF d] by (cases d) (auto simp: p_def path_isAbsolute_def)
  have "cleanSegment hashed"
    unfolding hashed_def using b by (rule hashedName_clean) (use e in simp)
  then have "cleanPath hashed" by (rule cleanPath_segment)
  with d have j: "path_join [d, hashed] = d @ ''/'' @ hashed"
    by (rule path_join_clean)
  have "fst (create h32 this p c) = Inr (d @ ''/'' @ hashed)"
    using j by (simp add: create_relative[OF rel] dir ext base hashed_def)
  then show ?thesis
    by (simp add: p_def name_def hashed_def)
qed

lemma create_top_level:
  assumes b: "cleanSegment b" and e: "CHR ''/'' \<notin> set e" "CHR ''.'' \<notin> set e"
  shows "fst (create h32 this (b @ CHR ''.'' # e) c) =
     Inr (b @ CHR ''-'' # toString (contentHash h32 (Buffer_from c)) @ CHR ''.'' # e)"
proof -
  define p where "p = b @ CHR ''.'' # e"
  define hashed where "hashed = b @ CHR ''-'' # toString (contentHash h32 (Buffer_from c)) @ CHR ''.'' # e"
  have name: "p \<noteq> []" "CHR ''/'' \<notin> set p"
    using b e by (auto simp: cleanSegment_def p_def)
  have bne: "b \<noteq> []" "b \<noteq> ''.''" using b by (auto simp: cleanSegment_def)
  have lp: "lastPortion p = b @ CHR ''.'' # e"
    using lastPortion_segment[OF name] by (simp add: p_def)
  have dir: "path_dirname p = ''.''"
    using name by (rule path_dirname_segment)
  have ext: "path_extname p = CHR ''.'' # e"
    using lp bne e(2) by (rule path_extname_base)
  have base: "path_basename p (CHR ''.'' # e) = b"
    using lp bne(1) by (rule path_basename_base) simp
  have rel: "\<not> path_isAbsolute p"
    using name by (cases p) (auto simp: path_isAbsolute_def)
  have "cleanSegment hashed"
    unfolding hashed_def using b by (rule hashedName_clean) (use e in simp)
  then have j: "path_join [''.'', hashed] = hashed"
    by (rule path_join_dot_clean)
  have "fst (create h32 this p c) = Inr hashed"
    using j by (simp add: create_relative[OF rel] dir ext base hashed_def)
  then show ?thesis
    by (simp add: p_def hashed_def)
qed

section \<open>Unhashed writes\<close>

lemma writeUnhashed_toRelPath:
  assumes "toRelPath this p = Inr rel"
  shows "writeUnhashed writeFile this fs p x =
     (case fsWrite writeFile fs (path_join [directory this, rel]) x of
        Inl e \<Rightarrow> (Inl e, this\<lparr>assets := Map_set rel rel (assets this)\<rparr>, fs)
      | Inr fs' \<Rightarrow> (Inr rel, this\<lparr>assets := Map_set rel rel (assets this)\<rparr>, fs'))"
  using assms by (simp add: writeUnhashed_def directory_def Let_def)

lemma isUnhashed_Some:
  assumes "map_of (assets this) p = Some r" and "r \<noteq> []"
  shows "isUnhashed this p = Inr (p = r)"
  using assms by (simp add: isUnhashed_def)

text \<open>
  Claim C8. For every registry and content \<open>x\<close>, when the file system accepts the file,
  \<open>writeUnhashed("index.html", x)\<close> returns \<open>index.html\<close>, and on the registry it leaves
  \<open>resolve("index.html")\<close> returns \<open>index.html\<close> and \<open>isUnhashed("index.html")\<close> returns
  true. More generally, for every path that \<open>_toRelPath\<close> accepts, \<open>writeUnhashed\<close>
  leaves a registry that maps the relative path to itself (whether or not the file system
  accepts the file).
\<close>

theorem writeUnhashed_identity:
  "(fsWrite writeFile fs (path_join [directory this, ''index.html'']) x = Inr fs' \<longrightarrow>
      writeUnhashed writeFile this fs ''index.html'' x =
        (Inr ''index.html'', this\<lparr>assets := Map_set ''index.html'' ''index.html'' (assets this)\<rparr>, fs') \<and>
      resolve (this\<lparr>assets := Map_set ''index.html'' ''index.html'' (assets this)\<rparr>) ''index.html'' =
        Inr ''index.html'' \<and>
      isUnhashed (this\<lparr>assets := Map_set ''index.html'' ''index.html'' (assets this)\<rparr>) ''index.html'' =
        Inr True) \<and>
   (toRelPath this p = Inr rel \<longrightarrow>
      map_of (assets (fst (snd (writeUnhashed writeFile this fs p x)))) rel = Some rel)"
proof (intro conjI impI)
  let ?am' = "this\<lparr>assets := Map_set ''index.html'' ''index.html'' (assets this)\<rparr>"
  have rel: "\<not> path_isAbsolute ''index.html''"
    by (simp add: path_isAbsolute_def)
  have m: "map_of (assets ?am') ''index.html'' = Some ''index.html''"
    by (simp add: map_of_Map_set)
  show "resolve ?am' ''index.html'' = Inr ''index.html''"
    using rel m by (rule resolve_relative_Some) simp
  show "isUnhashed ?am' ''index.html'' = Inr True"
    using isUnhashed_Some[OF m] by simp
  assume "fsWrite writeFile fs (path_join [directory this, ''index.html'']) x = Inr fs'"
  then show "writeUnhashed writeFile this fs ''index.html'' x = (Inr ''index.html'', ?am', fs')"
    by (simp add: writeUnhashed_toRelPath[OF toRelPath_relative[OF rel]])
next
  assume "toRelPath this p = Inr rel"
  then show "map_of (assets (fst (snd (writeUnhashed writeFile this fs p x)))) rel = Some rel"
    by (simp add: writeUnhashed_toRelPath map_of_Map_set split: sum.splits)
qed

theorem writeUnhashed_identity_witness:
  "fsWrite (\<lambda>fs file bytes. Inr ((file, bytes) # fs)) [] (path_join [directory \<lparr>targetDir = ''/target'', assets = []\<rparr>, ''index.html''])
       (Text (codeUnits ''<html></html>'')) = Inr [(''/target/index.html'', ''<html></html>'')] \<and>
   writeUnhashed (\<lambda>fs file bytes. Inr ((file, bytes) # fs)) \<lparr>targetDir = ''/target'', assets = []\<rparr> []
       ''index.html'' (Text (codeUnits ''<html></html>'')) =
     (Inr ''index.html'', \<lparr>targetDir = ''/target'', assets = [(''index.html'', ''index.html'')]\<rparr>,
      [(''/target/index.html'', ''<html></html>'')]) \<and>
   resolve \<lparr>targetDir = ''/target'', assets = [(''index.html'', ''index.html'')]\<rparr> ''index.html'' =
     Inr ''index.html'' \<and>
   isUnhashed \<lparr>targetDir = ''/target'', assets = [(''index.html'', ''index.html'')]\<rparr> ''index.html'' = Inr True \<and>
   toRelPath \<lparr>targetDir = ''/target'', assets = []\<rparr> ''/target/sw.js'' = Inr ''sw.js'' \<and>
   map_of (assets (fst (snd (writeUnhashed (\<lambda>fs file bytes. Inr ((file, bytes) # fs))
       \<lparr>targetDir = ''/target'', assets = []\<rparr> [] ''/target/sw.js'' (Text (codeUnits ''self'')))))) ''sw.js'' = Some ''sw.js''"
proof -
  let ?w = "\<lambda>(fs :: (string \<times> string) list) file bytes. Inr ((file, bytes) # fs) :: error + (string \<times> string) list"
  let ?am = "\<lparr>targetDir = ''/target'', assets = []\<rparr>"
  have full: "path_join [''/target'', ''index.html''] = ''/target/index.html''"
    by code_simp
  have ok: "fsWrite ?w [] (path_join [directory ?am, ''index.html'']) (Text (codeUnits ''<html></html>'')) =
      Inr [(''/target/index.html'', ''<html></html>'')]"
    by (simp add: fsWrite_def utf8_ascii directory_def full)
  have rel: "toRelPath ?am ''/target/sw.js'' = Inr ''sw.js''"
    by (simp add: toRelPath_def path_isAbsolute_def startsWith_def substr_def)
  from writeUnhashed_identity[of ?w "[]" ?am "Text (codeUnits ''<html></html>'')" "[(''/target/index.html'', ''<html></html>'')]"
      "''/target/sw.js''" "''sw.js''"] ok
  have 1: "writeUnhashed ?w ?am [] ''index.html'' (Text (codeUnits ''<html></html>'')) =
        (Inr ''index.html'', \<lparr>targetDir = ''/target'', assets = [(''index.html'', ''index.html'')]\<rparr>,
         [(''/target/index.html'', ''<html></html>'')])"
    and 2: "resolve \<lparr>targetDir = ''/target'', assets = [(''index.html'', ''index.html'')]\<rparr> ''index.html'' =
        Inr ''index.html''"
    and 3: "isUnhashed \<lparr>targetDir = ''/target'', assets = [(''index.html'', ''index.html'')]\<rparr> ''index.html'' = Inr True"
    by simp_all
  from writeUnhashed_identity[of ?w "[]" ?am "Text (codeUnits ''self'')" _ "''/target/sw.js''" "''sw.js''"] rel
  have 4: "map_of (assets (fst (snd (writeUnhashed ?w ?am [] ''/target/sw.js'' (Text (codeUnits ''self'')))))) ''sw.js'' = Some ''sw.js''"
    by simp
  from ok 1 2 3 rel 4 show ?thesis by blast
qed

section \<open>Hashed writes\<close>

lemma write_returns:
  assumes rel: "\<not> path_isAbsolute p"
    and w: "AssetMap_write h32 writeFile this fs p c = (Inr dst, this', fs')"
  shows "fst (create h32 this0 p c) = Inr dst"
proof -
  from w[unfolded write_relative[OF rel refl]] have
    "dst = path_join [path_dirname p,
       path_basename p (path_extname p) @ ''-'' @ toString (contentHash h32 (Buffer_from c)) @ path_extname p]"
    by (simp split: sum.splits)
  then show ?thesis
    by (simp add: create_relative[OF rel])
qed

text \<open>
  Claim C7. For every relative logical path \<open>p\<close> and content \<open>c\<close>, let \<open>bytes\<close> be the
  bytes of \<open>c\<close> (the UTF-8 encoding of a string, a buffer as it is) and \<open>dst\<close> be
  \<open>path.join\<close> of the directory of \<open>p\<close> and of its basename without extension, a dash,
  the decimal digits of the digest \<open>h32 0 bytes\<close>, and its extension. Then \<open>write(p, c)\<close>
  returns \<open>dst\<close> when the file system accepts the file, and leaves a registry that maps
  \<open>p\<close> to \<open>dst\<close>; any other call for \<open>p\<close> with the same bytes that returns, returns
  \<open>dst\<close> too. For a normalized \<open>p\<close> of the form \<open>d/b.e\<close>, \<open>dst\<close> is \<open>d/b-h.e\<close>, for one of
  the form \<open>b.e\<close> with no directory it is \<open>b-h.e\<close>; and for such a \<open>p\<close>, a call with
  other content returns the same path exactly when the digest of its bytes is the same.
\<close>

theorem write_hashed_path:
  assumes rel: "\<not> path_isAbsolute p"
    and bytes: "bytes = (case c of Text s \<Rightarrow> utf8 s | Binary bs \<Rightarrow> bs)"
    and dst: "dst = path_join [path_dirname p,
        path_basename p (path_extname p) @ ''-'' @ toDecimal (unat (h32 0 bytes)) @ path_extname p]"
  shows "(fsWrite writeFile fs (path_join [directory this, dst]) c = Inr fs' \<longrightarrow>
            AssetMap_write h32 writeFile this fs p c =
              (Inr dst, this\<lparr>assets := Map_set p dst (assets this)\<rparr>, fs')) \<and>
         map_of (assets (fst (snd (AssetMap_write h32 writeFile this fs p c)))) p = Some dst \<and>
         ((case c2 of Text s \<Rightarrow> utf8 s | Binary bs \<Rightarrow> bs) = bytes \<and>
          AssetMap_write h32 writeFile2 this2 fs2 p c2 = (Inr dst2, this2', fs2') \<longrightarrow> dst2 = dst) \<and>
         (cleanPath d \<and> cleanSegment b \<and> CHR ''/'' \<notin> set e \<and> CHR ''.'' \<notin> set e \<and>
          p = d @ ''/'' @ b @ ''.'' @ e \<longrightarrow>
            dst = d @ ''/'' @ b @ ''-'' @ toDecimal (unat (h32 0 bytes)) @ ''.'' @ e) \<and>
         (cleanSegment b \<and> CHR ''/'' \<notin> set e \<and> CHR ''.'' \<notin> set e \<and> p = b @ ''.'' @ e \<longrightarrow>
            dst = b @ ''-'' @ toDecimal (unat (h32 0 bytes)) @ ''.'' @ e) \<and>
         ((cleanPath d \<and> cleanSegment b \<and> CHR ''/'' \<notin> set e \<and> CHR ''.'' \<notin> set e \<and>
             p = d @ ''/'' @ b @ ''.'' @ e \<or>
           cleanSegment b \<and> CHR ''/'' \<notin> set e \<and> CHR ''.'' \<notin> set e \<and> p = b @ ''.'' @ e) \<and>
          AssetMap_write h32 writeFile2 this2 fs2 p c2 = (Inr dst2, this2', fs2') \<longrightarrow>
            (dst2 = dst) = (h32 0 (case c2 of Text s \<Rightarrow> utf8 s | Binary bs \<Rightarrow> bs) = h32 0 bytes))"
proof (intro conjI impI)
  have digest: "toString (contentHash h32 (Buffer_from c)) = toDecimal (unat (h32 0 bytes))"
    by (simp add: toString_def contentHash_def Buffer_from_bytes bytes)
  have digest2: "toString (contentHash h32 (Buffer_from c2)) =
      toDecimal (unat (h32 0 (case c2 of Text s \<Rightarrow> utf8 s | Binary bs \<Rightarrow> bs)))"
    by (simp add: toString_def contentHash_def Buffer_from_bytes)
  have dst0: "dst = path_join [path_dirname p,
        path_basename p (path_extname p) @ ''-'' @ toString (contentHash h32 (Buffer_from c)) @ path_extname p]"
    using dst by (simp only: digest)
  have cr: "fst (create h32 this p c) = Inr dst"
    using dst0 by (simp add: create_relative[OF rel])
  {
    assume "fsWrite writeFile fs (path_join [directory this, dst]) c = Inr fs'"
    then show "AssetMap_write h32 writeFile this fs p c =
        (Inr dst, this\<lparr>assets := Map_set p dst (assets this)\<rparr>, fs')"
      by (simp add: write_relative[OF rel dst0])
  }
  show "map_of (assets (fst (snd (AssetMap_write h32 writeFile this fs p c)))) p = Some dst"
    by (simp add: write_relative[OF rel dst0] map_of_Map_set split: sum.splits)
  {
    assume "(case c2 of Text s \<Rightarrow> utf8 s | Binary bs \<Rightarrow> bs) = bytes \<and>
        AssetMap_write h32 writeFile2 this2 fs2 p c2 = (Inr dst2, this2', fs2')"
    then have same: "Buffer_from c2 = Buffer_from c"
      and w: "AssetMap_write h32 writeFile2 this2 fs2 p c2 = (Inr dst2, this2', fs2')"
      by (simp_all add: Buffer_from_bytes bytes)
    from write_returns[OF rel w, of this] have "fst (create h32 this p c2) = Inr dst2" .
    then show "dst2 = dst"
      using cr by (simp add: create_relative[OF rel] same)
  }
  {
    assume "cleanPath d \<and> cleanSegment b \<and> CHR ''/'' \<notin> set e \<and> CHR ''.'' \<notin> set e \<and>
        p = d @ ''/'' @ b @ ''.'' @ e"
    then have h: "cleanPath d" "cleanSegment b" "CHR ''/'' \<notin> set e" "CHR ''.'' \<notin> set e"
      and p: "p = d @ CHR ''/'' # b @ CHR ''.'' # e"
      by simp_all
    from create_in_directory[OF h, of h32 this c] p cr
    show "dst = d @ ''/'' @ b @ ''-'' @ toDecimal (unat (h32 0 bytes)) @ ''.'' @ e"
      by (simp add: digest)
  }
  {
    assume "cleanSegment b \<and> CHR ''/'' \<notin> set e \<and> CHR ''.'' \<notin> set e \<and> p = b @ ''.'' @ e"
    then have h: "cleanSegment b" "CHR ''/'' \<notin> set e" "CHR ''.'' \<notin> set e"
      and p: "p = b @ CHR ''.'' # e"
      by simp_all
    from create_top_level[OF h, of h32 this c] p cr
    show "dst = b @ ''-'' @ toDecimal (unat (h32 0 bytes)) @ ''.'' @ e"
      by (simp add: digest)
  }
  assume a: "(cleanPath d \<and> cleanSegment b \<and> CHR ''/'' \<notin> set e \<and> CHR ''.'' \<notin> set e \<and>
             p = d @ ''/'' @ b @ ''.'' @ e \<or>
           cleanSegment b \<and> CHR ''/'' \<notin> set e \<and> CHR ''.'' \<notin> set e \<and> p = b @ ''.'' @ e) \<and>
          AssetMap_write h32 writeFile2 this2 fs2 p c2 = (Inr dst2, this2', fs2')"
  then have w: "AssetMap_write h32 writeFile2 this2 fs2 p c2 = (Inr dst2, this2', fs2')"
    by simp
  from write_returns[OF rel w, of this] have cr2: "fst (create h32 this p c2) = Inr dst2" .
  have inj: "(toString (contentHash h32 (Buffer_from c2)) = toString (contentHash h32 (Buffer_from c))) =
      (h32 0 (case c2 of Text s \<Rightarrow> utf8 s | Binary bs \<Rightarrow> bs) = h32 0 bytes)"
    by (simp add: toString_eq_iff contentHash_def Buffer_from_bytes bytes)
  from a consider
    (dir) "cleanPath d" "cleanSegment b" "CHR ''/'' \<notin> set e" "CHR ''.'' \<notin> set e"
      "p = d @ CHR ''/'' # b @ CHR ''.'' # e"
    | (top) "cleanSegment b" "CHR ''/'' \<notin> set e" "CHR ''.'' \<notin> set e" "p = b @ CHR ''.'' # e"
    by auto
  then show "(dst2 = dst) = (h32 0 (case c2 of Text s \<Rightarrow> utf8 s | Binary bs \<Rightarrow> bs) = h32 0 bytes)"
  proof cases
    case dir
    from create_in_directory[OF dir(1-4), of h32 this c] create_in_directory[OF dir(1-4), of h32 this c2]
      cr cr2 dir(5)
    have "dst = d @ CHR ''/'' # b @ CHR ''-'' # toString (contentHash h32 (Buffer_from c)) @ CHR ''.'' # e"
      and "dst2 = d @ CHR ''/'' # b @ CHR ''-'' # toString (contentHash h32 (Buffer_from c2)) @ CHR ''.'' # e"
      by simp_all
    then have "(dst2 = dst) =
        (toString (contentHash h32 (Buffer_from c2)) = toString (contentHash h32 (Buffer_from c)))"
      by simp
    then show ?thesis by (simp only: inj)
  next
    case top
    from create_top_level[OF top(1-3), of h32 this c] create_top_level[OF top(1-3), of h32 this c2]
      cr cr2 top(4)
    have "dst = b @ CHR ''-'' # toString (contentHash h32 (Buffer_from c)) @ CHR ''.'' # e"
      and "dst2 = b @ CHR ''-'' # toString (contentHash h32 (Buffer_from c2)) @ CHR ''.'' # e"
      by simp_all
    then have "(dst2 = dst) =
        (toString (contentHash h32 (Buffer_from c2)) = toString (contentHash h32 (Buffer_from c)))"
      by simp
    then show ?thesis by (simp only: inj)
  qed
qed

text \<open>
  Two instances, with a hash function that adds the bytes to the seed: the text
  \<open>body{}\<close> (bytes summing to 678) written as \<open>themes/dark/bundle.css\<close>, then the same
  bytes as a buffer; and the text \<open>U+00E9\<close>, whose UTF-8 bytes \<open>C3 A9\<close> sum to 364,
  written as \<open>e.txt\<close>, against the buffer of the one byte \<open>E9\<close>, which gets another
  name.
\<close>

theorem write_hashed_path_witness:
  "\<not> path_isAbsolute ''themes/dark/bundle.css'' \<and>
   ''body{}'' = (case Text (codeUnits ''body{}'') of Text s \<Rightarrow> utf8 s | Binary bs \<Rightarrow> bs) \<and>
   ''themes/dark/bundle-678.css'' =
     path_join [path_dirname ''themes/dark/bundle.css'',
       path_basename ''themes/dark/bundle.css'' (path_extname ''themes/dark/bundle.css'') @ ''-'' @
       toDecimal (unat ((\<lambda>seed bytes. seed + of_nat (sum_list (map of_char bytes))) (0 :: 32 word) ''body{}'')) @
       path_extname ''themes/dark/bundle.css''] \<and>
   fsWrite (\<lambda>fs file bytes. Inr ((file, bytes) # fs)) []
     (path_join [directory \<lparr>targetDir = ''/target'', assets = []\<rparr>, ''themes/dark/bundle-678.css''])
     (Text (codeUnits ''body{}'')) = Inr [(''/target/themes/dark/bundle-678.css'', ''body{}'')] \<and>
   AssetMap_write (\<lambda>seed bytes. seed + of_nat (sum_list (map of_char bytes)))
     (\<lambda>fs file bytes. Inr ((file, bytes) # fs))
     \<lparr>targetDir = ''/target'', assets = []\<rparr> [] ''themes/dark/bundle.css'' (Text (codeUnits ''body{}'')) =
     (Inr ''themes/dark/bundle-678.css'',
      \<lparr>targetDir = ''/target'', assets = [(''themes/dark/bundle.css'', ''themes/dark/bundle-678.css'')]\<rparr>,
      [(''/target/themes/dark/bundle-678.css'', ''body{}'')]) \<and>
   (case Binary ''body{}'' of Text s \<Rightarrow> utf8 s | Binary bs \<Rightarrow> bs) = ''body{}'' \<and>
   AssetMap_write (\<lambda>seed bytes. seed + of_nat (sum_list (map of_char bytes)))
     (\<lambda>fs file bytes. Inr ((file, bytes) # fs))
     \<lparr>targetDir = ''/target'', assets = [(''themes/dark/bundle.css'', ''themes/dark/bundle-678.css'')]\<rparr>
     [(''/target/themes/dark/bundle-678.css'', ''body{}'')]
     ''themes/dark/bundle.css'' (Binary ''body{}'') =
     (Inr ''themes/dark/bundle-678.css'',
      \<lparr>targetDir = ''/target'', assets = [(''themes/dark/bundle.css'', ''themes/dark/bundle-678.css'')]\<rparr>,
      [(''/target/themes/dark/bundle-678.css'', ''body{}''),
       (''/target/themes/dark/bundle-678.css'', ''body{}'')]) \<and>
   cleanPath ''themes/dark'' \<and> cleanSegment ''bundle'' \<and>
   CHR ''/'' \<notin> set ''css'' \<and> CHR ''.'' \<notin> set ''css'' \<and>
   ''themes/dark/bundle.css'' = ''themes/dark'' @ ''/'' @ ''bundle'' @ ''.'' @ ''css'' \<and>
   ''themes/dark/bundle-678.css'' =
     ''themes/dark'' @ ''/'' @ ''bundle'' @ ''-'' @
     toDecimal (unat ((\<lambda>seed bytes. seed + of_nat (sum_list (map of_char bytes))) (0 :: 32 word) ''body{}'')) @
     ''.'' @ ''css'' \<and>
   \<not> path_isAbsolute ''e.txt'' \<and>
   [CHR 0xC3, CHR 0xA9] = (case Text [0xE9] of Text s \<Rightarrow> utf8 s | Binary bs \<Rightarrow> bs) \<and>
   ''e-364.txt'' =
     path_join [path_dirname ''e.txt'',
       path_basename ''e.txt'' (path_extname ''e.txt'') @ ''-'' @
       toDecimal (unat ((\<lambda>seed bytes. seed + of_nat (sum_list (map of_char bytes))) (0 :: 32 word)
         [CHR 0xC3, CHR 0xA9])) @
       path_extname ''e.txt''] \<and>
   cleanSegment ''e'' \<and> CHR ''/'' \<notin> set ''txt'' \<and> CHR ''.'' \<notin> set ''txt'' \<and>
   ''e.txt'' = ''e'' @ ''.'' @ ''txt'' \<and>
   ''e-364.txt'' =
     ''e'' @ ''-'' @
     toDecimal (unat ((\<lambda>seed bytes. seed + of_nat (sum_list (map of_char bytes))) (0 :: 32 word)
       [CHR 0xC3, CHR 0xA9])) @ ''.'' @ ''txt'' \<and>
   AssetMap_write (\<lambda>seed bytes. seed + of_nat (sum_list (map of_char bytes)))
     (\<lambda>fs file bytes. Inr ((file, bytes) # fs))
     \<lparr>targetDir = ''/target'', assets = []\<rparr> [] ''e.txt'' (Binary [CHR 0xE9]) =
     (Inr ''e-233.txt'', \<lparr>targetDir = ''/target'', assets = [(''e.txt'', ''e-233.txt'')]\<rparr>,
      [(''/target/e-233.txt'', [CHR 0xE9])]) \<and>
   (\<lambda>seed bytes. seed + of_nat (sum_list (map of_char bytes))) (0 :: 32 word)
       (case Binary [CHR 0xE9] of Text s \<Rightarrow> utf8 s | Binary bs \<Rightarrow> bs) \<noteq>
     (\<lambda>seed bytes. seed + of_nat (sum_list (map of_char bytes))) (0 :: 32 word) [CHR 0xC3, CHR 0xA9] \<and>
   ''e-233.txt'' \<noteq> ''e-364.txt''"
proof -
  let ?h = "\<lambda>(seed :: 32 word) (bytes :: string). seed + of_nat (sum_list (map of_char bytes))"
  let ?w = "\<lambda>(fs :: (string \<times> string) list) file bytes. Inr ((file, bytes) # fs) :: error + (string \<times> string) list"
  let ?am = "\<lparr>targetDir = ''/target'', assets = []\<rparr>"
  let ?am' = "\<lparr>targetDir = ''/target'', assets = [(''themes/dark/bundle.css'', ''themes/dark/bundle-678.css'')]\<rparr>"
  let ?fs' = "[(''/target/themes/dark/bundle-678.css'', ''body{}'')]"
  let ?fs'' = "[(''/target/themes/dark/bundle-678.css'', ''body{}''),
       (''/target/themes/dark/bundle-678.css'', ''body{}'')]"
  have t678: "toDecimal 678 = ''678''" and t364: "toDecimal 364 = ''364''" and t233: "toDecimal 233 = ''233''"
    by (simp_all add: toDecimal.simps digitChar_def)
  have rel: "\<not> path_isAbsolute ''themes/dark/bundle.css''"
    by code_simp
  have bytes: "''body{}'' = (case Text (codeUnits ''body{}'') of Text s \<Rightarrow> utf8 s | Binary bs \<Rightarrow> bs)"
    by (simp add: utf8_ascii)
  have dir: "path_dirname ''themes/dark/bundle.css'' = ''themes/dark''"
    by code_simp
  have ext: "path_extname ''themes/dark/bundle.css'' = ''.css''"
    by code_simp
  have base: "path_basename ''themes/dark/bundle.css'' ''.css'' = ''bundle''"
    by code_simp
  have j: "path_join [''themes/dark'', ''bundle-678.css''] = ''themes/dark/bundle-678.css''"
    by code_simp
  have full: "path_join [''/target'', ''themes/dark/bundle-678.css''] = ''/target/themes/dark/bundle-678.css''"
    by code_simp
  have dst: "''themes/dark/bundle-678.css'' =
     path_join [path_dirname ''themes/dark/bundle.css'',
       path_basename ''themes/dark/bundle.css'' (path_extname ''themes/dark/bundle.css'') @ ''-'' @
       toDecimal (unat (?h 0 ''body{}'')) @ path_extname ''themes/dark/bundle.css'']"
    by (simp add: dir ext base t678 j)
  have ok: "fsWrite ?w [] (path_join [directory ?am, ''themes/dark/bundle-678.css'']) (Text (codeUnits ''body{}'')) =
      Inr ?fs'"
    by (simp add: fsWrite_def directory_def full utf8_ascii)
  have same: "(case Binary ''body{}'' of Text s \<Rightarrow> utf8 s | Binary bs \<Rightarrow> bs) = ''body{}''"
    by simp
  have w2: "AssetMap_write ?h ?w ?am' ?fs' ''themes/dark/bundle.css'' (Binary ''body{}'') =
     (Inr ''themes/dark/bundle-678.css'', ?am', ?fs'')"
    by (simp add: AssetMap_write_def create_def toRelPath_def rel dir ext base contentHash_def
        toString_def t678 j full fsWrite_def directory_def Let_def)
  have clean: "cleanPath ''themes/dark''" "cleanSegment ''bundle''"
      "CHR ''/'' \<notin> set ''css''" "CHR ''.'' \<notin> set ''css''"
    by (simp_all add: cleanPath_def cleanSegment_def)
  have p: "''themes/dark/bundle.css'' = ''themes/dark'' @ ''/'' @ ''bundle'' @ ''.'' @ ''css''"
    by simp
  note inst = write_hashed_path[where p = "''themes/dark/bundle.css''" and bytes = "''body{}''"
      and dst = "''themes/dark/bundle-678.css''" and ?h32.0 = ?h and c = "Text (codeUnits ''body{}'')"
      and writeFile = ?w and fs = "[]" and this = ?am and fs' = ?fs'
      and ?c2.0 = "Binary ''body{}''" and ?writeFile2.0 = ?w and ?this2.0 = ?am' and ?fs2.0 = ?fs'
      and ?dst2.0 = "''themes/dark/bundle-678.css''" and this2' = ?am' and fs2' = ?fs''
      and d = "''themes/dark''" and b = "''bundle''" and e = "''css''", OF rel bytes dst]
  from inst[THEN conjunct1, rule_format, OF ok]
  have 1: "AssetMap_write ?h ?w ?am [] ''themes/dark/bundle.css'' (Text (codeUnits ''body{}'')) =
      (Inr ''themes/dark/bundle-678.css'', ?am', ?fs')"
    by simp
  have cl: "cleanPath ''themes/dark'' \<and> cleanSegment ''bundle'' \<and>
      CHR ''/'' \<notin> set ''css'' \<and> CHR ''.'' \<notin> set ''css'' \<and>
      ''themes/dark/bundle.css'' = ''themes/dark'' @ ''/'' @ ''bundle'' @ ''.'' @ ''css''"
    by (intro conjI clean p)
  have 2: "''themes/dark/bundle-678.css'' =
     ''themes/dark'' @ ''/'' @ ''bundle'' @ ''-'' @ toDecimal (unat (?h 0 ''body{}'')) @ ''.'' @ ''css''"
    by (rule inst[THEN conjunct2, THEN conjunct2, THEN conjunct2, THEN conjunct1, rule_format, OF cl])
  have rel': "\<not> path_isAbsolute ''e.txt''"
    by code_simp
  have "utf8 [0xE9] = [CHR 0xC3, CHR 0xA9]"
    by (simp add: Let_def char_of_eq_iff)
  then have bytes': "[CHR 0xC3, CHR 0xA9] = (case Text [0xE9] of Text s \<Rightarrow> utf8 s | Binary bs \<Rightarrow> bs)"
    by (simp only: content.case)
  have dir': "path_dirname ''e.txt'' = ''.''"
    by code_simp
  have ext': "path_extname ''e.txt'' = ''.txt''"
    by code_simp
  have base': "path_basename ''e.txt'' ''.txt'' = ''e''"
    by code_simp
  have j': "path_join [''.'', ''e-364.txt''] = ''e-364.txt''" and j'': "path_join [''.'', ''e-233.txt''] = ''e-233.txt''"
    by code_simp+
  have full': "path_join [''/target'', ''e-233.txt''] = ''/target/e-233.txt''"
    by code_simp
  have dst': "''e-364.txt'' =
     path_join [path_dirname ''e.txt'',
       path_basename ''e.txt'' (path_extname ''e.txt'') @ ''-'' @
       toDecimal (unat (?h 0 [CHR 0xC3, CHR 0xA9])) @ path_extname ''e.txt'']"
    by (simp add: dir' ext' base' t364 j')
  have clean': "cleanSegment ''e''" "CHR ''/'' \<notin> set ''txt''" "CHR ''.'' \<notin> set ''txt''"
    by (simp_all add: cleanSegment_def)
  have p': "''e.txt'' = ''e'' @ ''.'' @ ''txt''"
    by simp
  have cl': "cleanSegment ''e'' \<and> CHR ''/'' \<notin> set ''txt'' \<and> CHR ''.'' \<notin> set ''txt'' \<and>
      ''e.txt'' = ''e'' @ ''.'' @ ''txt''"
    by (intro conjI clean' p')
  have w3: "AssetMap_write ?h ?w ?am [] ''e.txt'' (Binary [CHR 0xE9]) =
     (Inr ''e-233.txt'', \<lparr>targetDir = ''/target'', assets = [(''e.txt'', ''e-233.txt'')]\<rparr>,
      [(''/target/e-233.txt'', [CHR 0xE9])])"
    by (simp add: AssetMap_write_def create_def toRelPath_def rel' dir' ext' base' contentHash_def
        toString_def t233 j'' full' fsWrite_def directory_def Let_def)
  note inst' = write_hashed_path[where p = "''e.txt''" and bytes = "[CHR 0xC3, CHR 0xA9]"
      and dst = "''e-364.txt''" and ?h32.0 = ?h and c = "Text [0xE9]"
      and writeFile = ?w and fs = "[]" and this = ?am and fs' = ?fs'
      and ?c2.0 = "Binary [CHR 0xE9]" and ?writeFile2.0 = ?w and ?this2.0 = ?am and ?fs2.0 = "[]"
      and ?dst2.0 = "''e-233.txt''"
      and this2' = "\<lparr>targetDir = ''/target'', assets = [(''e.txt'', ''e-233.txt'')]\<rparr>"
      and fs2' = "[(''/target/e-233.txt'', [CHR 0xE9])]"
      and d = "''themes/dark''" and b = "''e''" and e = "''txt''", OF rel' bytes' dst']
  have 3: "''e-364.txt'' =
     ''e'' @ ''-'' @ toDecimal (unat (?h 0 [CHR 0xC3, CHR 0xA9])) @ ''.'' @ ''txt''"
    by (rule inst'[THEN conjunct2, THEN conjunct2, THEN conjunct2, THEN conjunct2, THEN conjunct1,
        rule_format, OF cl'])
  have ne: "?h 0 (case Binary [CHR 0xE9] of Text s \<Rightarrow> utf8 s | Binary bs \<Rightarrow> bs) \<noteq> ?h 0 [CHR 0xC3, CHR 0xA9]"
    by simp
  have "(''e-233.txt'' = ''e-364.txt'') =
      (?h 0 (case Binary [CHR 0xE9] of Text s \<Rightarrow> utf8 s | Binary bs \<Rightarrow> bs) = ?h 0 [CHR 0xC3, CHR 0xA9])"
    by (rule inst'[THEN conjunct2, THEN conjunct2, THEN conjunct2, THEN conjunct2, THEN conjunct2,
        rule_format, OF conjI[OF disjI2[OF cl'] w3]])
  with ne have 4: "''e-233.txt'' \<noteq> ''e-364.txt''"
    by (simp only: simp_thms)
  show ?thesis
    by (intro conjI rel bytes dst ok 1 same w2 clean p 2 rel' bytes' dst' clean' p' 3 w3 ne 4)
qed

section \<open>The keys of a registry stay distinct\<close>

lemma distinct_fold_Map_set:
  "distinct (map fst m) \<Longrightarrow> distinct (map fst (fold (\<lambda>(k, v). Map_set (f k) (g v)) xs m))"
proof (induction xs arbitrary: m)
  case Nil
  then show ?case by simp
next
  case (Cons x xs)
  obtain k v where x: "x = (k, v)" by (cases x)
  show ?case
    using Cons.IH[OF distinct_Map_set[OF Cons.prems, of "f k" "g v"]] by (simp add: x)
qed

lemma distinct_keys_write:
  assumes "distinct (map fst (assets this))"
  shows "distinct (map fst (assets (fst (snd (AssetMap_write h32 writeFile this fs p c)))))"
  using assms
  by (auto simp: AssetMap_write_def create_def Let_def distinct_Map_set split: sum.splits)

lemma distinct_keys_writeUnhashed:
  assumes "distinct (map fst (assets this))"
  shows "distinct (map fst (assets (fst (snd (writeUnhashed writeFile this fs p c)))))"
  using assms
  by (auto simp: writeUnhashed_def Let_def distinct_Map_set split: sum.splits)

lemma distinct_keys_addSubMap:
  assumes "distinct (map fst (assets this))" and "addSubMap this assetMap = Inr this'"
  shows "distinct (map fst (assets this'))"
  using assms
  by (auto simp: addSubMap_def Let_def distinct_fold_Map_set split: if_splits)

section \<open>Merging a sub-registry\<close>

lemma map_of_fold_Map_set:
  "map_of (fold (\<lambda>(k, v). Map_set (f k) (g v)) xs m) =
     map_of m ++ map_of (rev (map (\<lambda>(k, v). (f k, g v)) xs))"
proof (induction xs arbitrary: m)
  case Nil
  show ?case by simp
next
  case (Cons x xs)
  obtain k v where x: "x = (k, v)" by (cases x)
  show ?case
    by (simp add: x Cons.IH map_of_Map_set map_add_upd_left fun_eq_iff map_add_def split: option.splits)
qed

lemma addSubMap_nested:
  assumes "directory S = directory P @ ''/'' @ pre"
  shows "addSubMap P S =
     Inr (P\<lparr>assets := fold (\<lambda>(k, v). Map_set (path_join [pre, k]) (path_join [pre, v]))
                        (assets S) (assets P)\<rparr>)"
  using assms by (simp add: addSubMap_def startsWith_def substr_def Let_def)

lemma addSubMap_not_prefix:
  assumes "\<not> prefix (directory P) (directory S)"
  shows "addSubMap P S =
     Inl (Error None (''map directory doesn'' @ [CHR 0x27] @ ''t start with this directory: '' @
            directory S @ '' '' @ directory P))"
  using assms by (simp add: addSubMap_def startsWith_def)

lemma rekeyed_Some:
  assumes dist: "distinct (map fst xs)" and inj: "inj_on f (fst ` set xs)" and mem: "(k, v) \<in> set xs"
  shows "map_of (fold (\<lambda>(k, v). Map_set (f k) (g v)) xs m) (f k) = Some (g v)"
proof -
  let ?ys = "rev (map (\<lambda>(k, v). (f k, g v)) xs)"
  have ys: "map fst ?ys = rev (map f (map fst xs))"
    by (simp add: rev_map case_prod_unfold comp_def)
  have "distinct (map f (map fst xs))"
    using dist inj by (simp only: distinct_map set_map)
  then have "distinct (map fst ?ys)"
    by (simp only: ys distinct_rev)
  moreover have "(f k, g v) \<in> set ?ys"
    using mem by force
  ultimately have "map_of ?ys (f k) = Some (g v)"
    by (rule map_of_is_SomeI)
  then show ?thesis
    by (simp add: map_of_fold_Map_set)
qed

lemma rekeyed_other:
  assumes "k' \<notin> f ` fst ` set xs"
  shows "map_of (fold (\<lambda>(k, v). Map_set (f k) (g v)) xs m) k' = map_of m k'"
proof -
  let ?ys = "rev (map (\<lambda>(k, v). (f k, g v)) xs)"
  have "fst ` set ?ys = f ` fst ` set xs"
    by force
  then have "map_of ?ys k' = None"
    using assms by (simp add: map_of_eq_None_iff)
  then show ?thesis
    by (simp add: map_of_fold_Map_set map_add_def)
qed

text \<open>
  Claim C1, as amended. Let the root of the sub-registry \<open>S\<close> be the root of \<open>P\<close>, a
  slash and a prefix, and let \<open>path.join(prefix, k)\<close> be different for different keys
  \<open>k\<close> of \<open>S\<close>. Then \<open>addSubMap(S)\<close> succeeds and leaves the root of \<open>P\<close> as it was; for
  every entry \<open>(k, v)\<close> of \<open>S\<close>, \<open>P\<close> then maps \<open>path.join(prefix, k)\<close> to
  \<open>path.join(prefix, v)\<close>, which are \<open>prefix/k\<close> and \<open>prefix/v\<close> when prefix, \<open>k\<close> and \<open>v\<close>
  are normalized relative paths; and every key that is no re-keyed key of \<open>S\<close> keeps
  the value it had in \<open>P\<close>.
\<close>

theorem addSubMap_rekeys:
  assumes nested: "directory S = directory P @ ''/'' @ pre"
    and dist: "distinct (map fst (assets S))"
    and inj: "inj_on (\<lambda>k. path_join [pre, k]) (fst ` set (assets S))"
  shows "\<exists>P'. addSubMap P S = Inr P' \<and> directory P' = directory P \<and>
      (\<forall>(k, v) \<in> set (assets S).
          map_of (assets P') (path_join [pre, k]) = Some (path_join [pre, v]) \<and>
          (cleanPath pre \<and> cleanPath k \<and> cleanPath v \<longrightarrow>
             path_join [pre, k] = pre @ ''/'' @ k \<and> path_join [pre, v] = pre @ ''/'' @ v)) \<and>
      (\<forall>k'. k' \<notin> (\<lambda>k. path_join [pre, k]) ` fst ` set (assets S) \<longrightarrow>
          map_of (assets P') k' = map_of (assets P) k')"
proof -
  let ?P' = "P\<lparr>assets := fold (\<lambda>(k, v). Map_set (path_join [pre, k]) (path_join [pre, v]))
                        (assets S) (assets P)\<rparr>"
  have 1: "addSubMap P S = Inr ?P'"
    using nested by (rule addSubMap_nested)
  have 2: "directory ?P' = directory P"
    by (simp add: directory_def)
  have 3: "map_of (assets ?P') (path_join [pre, k]) = Some (path_join [pre, v])"
    if "(k, v) \<in> set (assets S)" for k v
    using rekeyed_Some[OF dist inj that, of "\<lambda>v. path_join [pre, v]" "assets P"] by simp
  have 4: "map_of (assets ?P') k' = map_of (assets P) k'"
    if "k' \<notin> (\<lambda>k. path_join [pre, k]) ` fst ` set (assets S)" for k'
    using rekeyed_other[OF that, of "\<lambda>v. path_join [pre, v]" "assets P"] by simp
  show ?thesis
    using 1 2 3 4 by (auto simp: path_join_clean)
qed

theorem addSubMap_rekeys_witness:
  "directory \<lparr>targetDir = ''/target/themes/dark'',
       assets = [(''img/logo.png'', ''img/logo-2.png''), (''font.woff'', ''font-3.woff'')]\<rparr> =
     directory \<lparr>targetDir = ''/target'', assets = [(''hydrogen.js'', ''hydrogen-1.js'')]\<rparr> @ ''/'' @ ''themes/dark'' \<and>
   distinct (map fst [(''img/logo.png'', ''img/logo-2.png''), (''font.woff'', ''font-3.woff'')]) \<and>
   inj_on (\<lambda>k. path_join [''themes/dark'', k])
     (fst ` set [(''img/logo.png'', ''img/logo-2.png''), (''font.woff'', ''font-3.woff'')]) \<and>
   cleanPath ''themes/dark'' \<and> cleanPath ''img/logo.png'' \<and> cleanPath ''img/logo-2.png'' \<and>
   ''sw.js'' \<notin> (\<lambda>k. path_join [''themes/dark'', k]) `
     fst ` set [(''img/logo.png'', ''img/logo-2.png''), (''font.woff'', ''font-3.woff'')] \<and>
   (\<exists>P'. addSubMap \<lparr>targetDir = ''/target'', assets = [(''hydrogen.js'', ''hydrogen-1.js'')]\<rparr>
          \<lparr>targetDir = ''/target/themes/dark'',
           assets = [(''img/logo.png'', ''img/logo-2.png''), (''font.woff'', ''font-3.woff'')]\<rparr> = Inr P' \<and>
      directory P' = ''/target'' \<and>
      map_of (assets P') ''themes/dark/img/logo.png'' = Some ''themes/dark/img/logo-2.png'' \<and>
      map_of (assets P') ''themes/dark/font.woff'' = Some ''themes/dark/font-3.woff'' \<and>
      map_of (assets P') ''hydrogen.js'' = Some ''hydrogen-1.js'' \<and>
      map_of (assets P') ''sw.js'' = None)"
proof -
  let ?P = "\<lparr>targetDir = ''/target'', assets = [(''hydrogen.js'', ''hydrogen-1.js'')]\<rparr>"
  let ?S = "\<lparr>targetDir = ''/target/themes/dark'',
       assets = [(''img/logo.png'', ''img/logo-2.png''), (''font.woff'', ''font-3.woff'')]\<rparr>"
  let ?f = "\<lambda>k. path_join [''themes/dark'', k]"
  have j1: "path_join [''themes/dark'', ''img/logo.png''] = ''themes/dark/img/logo.png''"
    by code_simp
  have j2: "path_join [''themes/dark'', ''font.woff''] = ''themes/dark/font.woff''"
    by code_simp
  have j3: "path_join [''themes/dark'', ''img/logo-2.png''] = ''themes/dark/img/logo-2.png''"
    by code_simp
  have j4: "path_join [''themes/dark'', ''font-3.woff''] = ''themes/dark/font-3.woff''"
    by code_simp
  have nested: "directory ?S = directory ?P @ ''/'' @ ''themes/dark''"
    by (simp add: directory_def)
  have dist: "distinct (map fst (assets ?S))"
    by simp
  have inj: "inj_on ?f (fst ` set (assets ?S))"
    by (simp add: j1 j2)
  have clean: "cleanPath ''themes/dark''" "cleanPath ''img/logo.png''" "cleanPath ''img/logo-2.png''"
    by (simp_all add: cleanPath_def cleanSegment_def)
  have other: "''hydrogen.js'' \<notin> ?f ` fst ` set (assets ?S)" "''sw.js'' \<notin> ?f ` fst ` set (assets ?S)"
    by (simp_all add: j1 j2)
  from addSubMap_rekeys[OF nested dist inj]
  obtain P' where r: "addSubMap ?P ?S = Inr P'" "directory P' = directory ?P"
    and e: "\<forall>(k, v) \<in> set (assets ?S). map_of (assets P') (?f k) = Some (?f v) \<and>
          (cleanPath ''themes/dark'' \<and> cleanPath k \<and> cleanPath v \<longrightarrow>
             ?f k = ''themes/dark'' @ ''/'' @ k \<and> ?f v = ''themes/dark'' @ ''/'' @ v)"
    and o: "\<forall>k'. k' \<notin> ?f ` fst ` set (assets ?S) \<longrightarrow> map_of (assets P') k' = map_of (assets ?P) k'"
    by blast
  from e have "map_of (assets P') (?f ''img/logo.png'') = Some (?f ''img/logo-2.png'')"
    and "map_of (assets P') (?f ''font.woff'') = Some (?f ''font-3.woff'')"
    by simp_all
  then have m: "map_of (assets P') ''themes/dark/img/logo.png'' = Some ''themes/dark/img/logo-2.png''"
      "map_of (assets P') ''themes/dark/font.woff'' = Some ''themes/dark/font-3.woff''"
    by (simp_all only: j1 j2 j3 j4)
  from o other have n: "map_of (assets P') ''hydrogen.js'' = Some ''hydrogen-1.js''"
      "map_of (assets P') ''sw.js'' = None"
    by simp_all
  have d: "directory P' = ''/target''"
    using r(2) by (simp add: directory_def)
  have ex: "\<exists>P'. addSubMap ?P ?S = Inr P' \<and> directory P' = ''/target'' \<and>
      map_of (assets P') ''themes/dark/img/logo.png'' = Some ''themes/dark/img/logo-2.png'' \<and>
      map_of (assets P') ''themes/dark/font.woff'' = Some ''themes/dark/font-3.woff'' \<and>
      map_of (assets P') ''hydrogen.js'' = Some ''hydrogen-1.js'' \<and>
      map_of (assets P') ''sw.js'' = None"
    using r(1) d m n by (intro exI[of _ P'] conjI)
  show ?thesis
    using nested dist inj clean other(2) ex by (simp only: simp_thms AssetMap.simps)
qed

lemma write_registry:
  assumes "\<not> path_isAbsolute p"
  shows "fst (snd (AssetMap_write h32 writeFile this fs p c)) =
     this\<lparr>assets := Map_set p
       (path_join [path_dirname p,
          path_basename p (path_extname p) @ ''-'' @ toString (contentHash h32 (Buffer_from c)) @ path_extname p])
       (assets this)\<rparr>"
  by (simp add: write_relative[OF assms refl] split: sum.splits)

lemma writeUnhashed_registry:
  assumes "\<not> path_isAbsolute p"
  shows "fst (snd (writeUnhashed writeFile this fs p x)) = this\<lparr>assets := Map_set p p (assets this)\<rparr>"
  by (simp add: writeUnhashed_toRelPath[OF toRelPath_relative[OF assms]] split: sum.splits)

text \<open>
  Claim C1 as stated fails: without that condition an entry can be lost. A sub-registry of \<open>/target/sub\<close> receives
  \<open>write("a.js", "x")\<close> and \<open>writeUnhashed("./a.js", "y")\<close>, whatever the hash function and
  the file system do: it holds two entries. Both keys are re-keyed to \<open>sub/a.js\<close>, so
  after \<open>addSubMap\<close> the parent holds the second entry only, and nothing maps
  \<open>sub/a.js\<close> to the re-keyed hashed path \<open>sub/a-h.js\<close> of the first.
\<close>

theorem addSubMap_key_collision:
  "\<forall>h32 writeFile fs fs'.
     fst (snd (writeUnhashed writeFile
       (fst (snd (AssetMap_write h32 writeFile \<lparr>targetDir = ''/target/sub'', assets = []\<rparr> fs
          ''a.js'' (Text (codeUnits ''x'')))))
       fs' ''./a.js'' (Text (codeUnits ''y'')))) =
       \<lparr>targetDir = ''/target/sub'',
        assets = [(''a.js'', ''a-'' @ toString (contentHash h32 ''x'') @ ''.js''), (''./a.js'', ''./a.js'')]\<rparr> \<and>
     addSubMap \<lparr>targetDir = ''/target'', assets = []\<rparr>
       \<lparr>targetDir = ''/target/sub'',
        assets = [(''a.js'', ''a-'' @ toString (contentHash h32 ''x'') @ ''.js''), (''./a.js'', ''./a.js'')]\<rparr> =
       Inr \<lparr>targetDir = ''/target'', assets = [(''sub/a.js'', ''sub/a.js'')]\<rparr> \<and>
     path_join [''sub'', ''a.js''] = ''sub/a.js'' \<and>
     path_join [''sub'', ''a-'' @ toString (contentHash h32 ''x'') @ ''.js''] =
       ''sub/a-'' @ toString (contentHash h32 ''x'') @ ''.js'' \<and>
     ''sub/a-'' @ toString (contentHash h32 ''x'') @ ''.js'' \<noteq> ''sub/a.js''"
proof (intro allI conjI)
  fix h32 :: "32 word \<Rightarrow> string \<Rightarrow> 32 word"
  fix writeFile :: "'fs \<Rightarrow> string \<Rightarrow> string \<Rightarrow> error + 'fs"
  fix fs fs' :: 'fs
  let ?hashed = "''a-'' @ toString (contentHash h32 ''x'') @ ''.js''"
  have r1: "\<not> path_isAbsolute ''a.js''" and r2: "\<not> path_isAbsolute ''./a.js''"
    by (simp_all add: path_isAbsolute_def)
  have dir: "path_dirname ''a.js'' = ''.''" by code_simp
  have ext: "path_extname ''a.js'' = ''.js''" by code_simp
  have base: "path_basename ''a.js'' ''.js'' = ''a''" by code_simp
  have seg: "cleanSegment ?hashed"
    using hashedName_clean[of "''a''" "''.js''" "contentHash h32 ''x''"]
    by (simp add: cleanSegment_def)
  have j: "path_join [''.'', ?hashed] = ?hashed"
    using seg by (rule path_join_dot_clean)
  have w: "fst (snd (AssetMap_write h32 writeFile \<lparr>targetDir = ''/target/sub'', assets = []\<rparr> fs
          ''a.js'' (Text (codeUnits ''x'')))) = \<lparr>targetDir = ''/target/sub'', assets = [(''a.js'', ?hashed)]\<rparr>"
    using j by (simp add: write_registry[OF r1] dir ext base utf8_ascii)
  show "fst (snd (writeUnhashed writeFile
       (fst (snd (AssetMap_write h32 writeFile \<lparr>targetDir = ''/target/sub'', assets = []\<rparr> fs
          ''a.js'' (Text (codeUnits ''x'')))))
       fs' ''./a.js'' (Text (codeUnits ''y'')))) =
       \<lparr>targetDir = ''/target/sub'', assets = [(''a.js'', ?hashed), (''./a.js'', ''./a.js'')]\<rparr>"
    unfolding w by (simp add: writeUnhashed_registry[OF r2])
  have k1: "path_join [''sub'', ''a.js''] = ''sub/a.js''" by code_simp
  have k2: "path_join [''sub'', ''./a.js''] = ''sub/a.js''" by code_simp
  show "path_join [''sub'', ''a.js''] = ''sub/a.js''" by (rule k1)
  have "cleanPath ''sub''" by (simp add: cleanPath_def cleanSegment_def)
  then have "path_join [''sub'', ?hashed] = ''sub'' @ ''/'' @ ?hashed"
    using cleanPath_segment[OF seg] by (rule path_join_clean)
  then show k3: "path_join [''sub'', ?hashed] = ''sub/a-'' @ toString (contentHash h32 ''x'') @ ''.js''"
    by simp
  show "''sub/a-'' @ toString (contentHash h32 ''x'') @ ''.js'' \<noteq> ''sub/a.js''"
    by simp
  have n: "directory \<lparr>targetDir = ''/target/sub'', assets = [(''a.js'', ?hashed), (''./a.js'', ''./a.js'')]\<rparr> =
      directory \<lparr>targetDir = ''/target'', assets = []\<rparr> @ ''/'' @ ''sub''"
    by (simp add: directory_def)
  show "addSubMap \<lparr>targetDir = ''/target'', assets = []\<rparr>
       \<lparr>targetDir = ''/target/sub'', assets = [(''a.js'', ?hashed), (''./a.js'', ''./a.js'')]\<rparr> =
       Inr \<lparr>targetDir = ''/target'', assets = [(''sub/a.js'', ''sub/a.js'')]\<rparr>"
    unfolding addSubMap_nested[OF n] by (simp add: k1 k2)
qed

section \<open>Properties of the release fingerprint\<close>

lemma sort_mset_cong:
  fixes xs ys :: "'a::linorder list"
  assumes "mset xs = mset ys"
  shows "sort xs = sort ys"
proof (rule properties_for_sort)
  show "mset (sort ys) = mset xs"
    unfolding mset_sort by (rule assms[symmetric])
  show "sorted (sort ys)"
    by (rule sorted_sort)
qed

lemma joinWith_inj:
  assumes len: "length xs = length ys"
    and free: "\<forall>x\<in>set xs \<union> set ys. c \<notin> set x"
    and eq: "joinWith [c] xs = joinWith [c] ys"
  shows "xs = ys"
proof (cases "xs = []")
  case True
  with len show ?thesis by simp
next
  case False
  with len have ys: "ys \<noteq> []" by auto
  have fx: "\<forall>x\<in>set xs. c \<notin> set x" and fy: "\<forall>x\<in>set ys. c \<notin> set x"
    using free by auto
  have "xs = splitOn c (joinWith [c] xs)"
    using False fx by (rule splitOn_joinWith[symmetric])
  also have "\<dots> = splitOn c (joinWith [c] ys)"
    by (simp only: eq)
  also have "\<dots> = ys"
    using ys fy by (rule splitOn_joinWith)
  finally show ?thesis .
qed

lemma contentHash_collides: "\<not> inj (contentHash h32)"
proof
  assume "inj (contentHash h32)"
  then have "finite (UNIV :: string set)"
    by (rule finite_imageD[rotated]) simp
  then show False
    using infinite_UNIV_listI by blast
qed

text \<open>
  Claim C3, as amended. The release fingerprint is the content digest of the sorted,
  comma-joined list of the hashed paths of the registry. Two registries with the same
  entries in any order have the same fingerprint. For two registries with equally many
  entries, none of whose hashed paths contains a comma, the digested strings differ
  whenever the hashed paths (counted with repetition) differ; the fingerprint then
  changes unless the 32-bit digest collides on the two strings (and no 32-bit digest is
  injective: lemma \<open>contentHash_collides\<close>).
\<close>

theorem globalHash_sorted_join:
  "globalHash h32 am = contentHash h32 (joinWith '','' (sort (map snd (entries am)))) \<and>
   (mset (entries am') = mset (entries am) \<longrightarrow> globalHash h32 am' = globalHash h32 am) \<and>
   ((\<forall>p \<in> snd ` set (entries am) \<union> snd ` set (entries am'). CHR '','' \<notin> set p) \<and>
    length (entries am') = length (entries am) \<and>
    mset (map snd (entries am')) \<noteq> mset (map snd (entries am)) \<longrightarrow>
      joinWith '','' (globalHashAssets am') \<noteq> joinWith '','' (globalHashAssets am))"
proof (intro conjI impI)
  have snd: "(\<lambda>(unresolved, resolved). resolved) = (snd :: string \<times> string \<Rightarrow> string)"
    by (simp add: fun_eq_iff)
  show "globalHash h32 am = contentHash h32 (joinWith '','' (sort (map snd (entries am))))"
    by (simp add: globalHash_def globalHashAssets_def snd)
  {
    assume "mset (entries am') = mset (entries am)"
    then have "image_mset snd (mset (entries am')) = image_mset snd (mset (entries am))"
      by (rule arg_cong)
    then have "mset (map snd (entries am')) = mset (map snd (entries am))"
      by (simp only: mset_map)
    then have "sort (map snd (entries am')) = sort (map snd (entries am))"
      by (rule sort_mset_cong)
    then show "globalHash h32 am' = globalHash h32 am"
      by (simp add: globalHash_def globalHashAssets_def snd)
  }
  assume a: "(\<forall>p \<in> snd ` set (entries am) \<union> snd ` set (entries am'). CHR '','' \<notin> set p) \<and>
    length (entries am') = length (entries am) \<and>
    mset (map snd (entries am')) \<noteq> mset (map snd (entries am))"
  show "joinWith '','' (globalHashAssets am') \<noteq> joinWith '','' (globalHashAssets am)"
  proof
    assume eq: "joinWith '','' (globalHashAssets am') = joinWith '','' (globalHashAssets am)"
    have "globalHashAssets am' = globalHashAssets am"
    proof (rule joinWith_inj[of _ _ "CHR '',''"])
      show "length (globalHashAssets am') = length (globalHashAssets am)"
        using a by (simp add: globalHashAssets_def)
      show "\<forall>x\<in>set (globalHashAssets am') \<union> set (globalHashAssets am). CHR '','' \<notin> set x"
        using a by (auto simp: globalHashAssets_def snd)
      show "joinWith '','' (globalHashAssets am') = joinWith '','' (globalHashAssets am)"
        by (rule eq)
    qed
    then have "mset (globalHashAssets am') = mset (globalHashAssets am)"
      by simp
    then have "mset (map snd (entries am')) = mset (map snd (entries am))"
      by (simp add: globalHashAssets_def snd)
    with a show False by simp
  qed
qed

theorem globalHash_sorted_join_witness:
  "mset (entries \<lparr>targetDir = ''/target'', assets = [(''index.html'', ''index.html''), (''hydrogen.js'', ''hydrogen-1.js'')]\<rparr>) =
   mset (entries \<lparr>targetDir = ''/target'', assets = [(''hydrogen.js'', ''hydrogen-1.js''), (''index.html'', ''index.html'')]\<rparr>) \<and>
   (\<forall>h32. globalHash h32 \<lparr>targetDir = ''/target'', assets = [(''index.html'', ''index.html''), (''hydrogen.js'', ''hydrogen-1.js'')]\<rparr> =
      globalHash h32 \<lparr>targetDir = ''/target'', assets = [(''hydrogen.js'', ''hydrogen-1.js''), (''index.html'', ''index.html'')]\<rparr>) \<and>
   list_all (\<lambda>p. CHR '','' \<notin> set p) [''hydrogen-1.js'', ''index.html'', ''hydrogen-2.js''] \<and>
   mset (map snd (entries \<lparr>targetDir = ''/target'', assets = [(''hydrogen.js'', ''hydrogen-2.js''), (''index.html'', ''index.html'')]\<rparr>)) \<noteq>
   mset (map snd (entries \<lparr>targetDir = ''/target'', assets = [(''hydrogen.js'', ''hydrogen-1.js''), (''index.html'', ''index.html'')]\<rparr>)) \<and>
   joinWith '','' (globalHashAssets \<lparr>targetDir = ''/target'', assets = [(''hydrogen.js'', ''hydrogen-2.js''), (''index.html'', ''index.html'')]\<rparr>) \<noteq>
   joinWith '','' (globalHashAssets \<lparr>targetDir = ''/target'', assets = [(''hydrogen.js'', ''hydrogen-1.js''), (''index.html'', ''index.html'')]\<rparr>)"
proof -
  let ?A = "\<lparr>targetDir = ''/target'', assets = [(''hydrogen.js'', ''hydrogen-1.js''), (''index.html'', ''index.html'')]\<rparr>"
  let ?B = "\<lparr>targetDir = ''/target'', assets = [(''index.html'', ''index.html''), (''hydrogen.js'', ''hydrogen-1.js'')]\<rparr>"
  let ?C = "\<lparr>targetDir = ''/target'', assets = [(''hydrogen.js'', ''hydrogen-2.js''), (''index.html'', ''index.html'')]\<rparr>"
  have perm: "mset (entries ?B) = mset (entries ?A)"
    by (simp add: entries_def)
  have same: "globalHash h32 ?B = globalHash h32 ?A" for h32
    using globalHash_sorted_join[of h32 ?A ?B] perm by blast
  have free: "\<forall>p \<in> snd ` set (entries ?A) \<union> snd ` set (entries ?C). CHR '','' \<notin> set p"
    by (simp add: entries_def)
  have free': "list_all (\<lambda>p. CHR '','' \<notin> set p) [''hydrogen-1.js'', ''index.html'', ''hydrogen-2.js'']"
    by simp
  have len: "length (entries ?C) = length (entries ?A)"
    by (simp add: entries_def)
  have "''hydrogen-2.js'' \<in># mset (map snd (entries ?C))"
    by (simp add: entries_def)
  moreover have "''hydrogen-2.js'' \<notin># mset (map snd (entries ?A))"
    by (simp add: entries_def)
  ultimately have ne: "mset (map snd (entries ?C)) \<noteq> mset (map snd (entries ?A))"
    by metis
  have diff: "joinWith '','' (globalHashAssets ?C) \<noteq> joinWith '','' (globalHashAssets ?A)"
    using globalHash_sorted_join[of h32 ?A ?C] free len ne by blast
  show ?thesis
    using perm same free' ne diff by (intro conjI allI)
qed

text \<open>
  Claim C3 as stated fails: with a comma in a hashed path, a change of one hashed path can leave the digested
  string, and so the fingerprint under every hash function, unchanged: the registries
  \<open>{a,b; a,b,a}\<close> and \<open>{b,a; a,b,a}\<close> of unhashed files both digest \<open>a,b,a,b,a\<close>.
\<close>

theorem globalHash_comma_collision:
  "\<forall>h32. globalHash h32 \<lparr>targetDir = ''/target'', assets = [(''a,b'', ''a,b''), (''a,b,a'', ''a,b,a'')]\<rparr> =
          globalHash h32 \<lparr>targetDir = ''/target'', assets = [(''b,a'', ''b,a''), (''a,b,a'', ''a,b,a'')]\<rparr>"
proof
  fix h32 :: "32 word \<Rightarrow> string \<Rightarrow> 32 word"
  have 1: "sort [''a,b'', ''a,b,a''] = [''a,b'', ''a,b,a'']" by simp
  have 2: "sort [''b,a'', ''a,b,a''] = [''a,b,a'', ''b,a'']" by simp
  show "globalHash h32 \<lparr>targetDir = ''/target'', assets = [(''a,b'', ''a,b''), (''a,b,a'', ''a,b,a'')]\<rparr> =
          globalHash h32 \<lparr>targetDir = ''/target'', assets = [(''b,a'', ''b,a''), (''a,b,a'', ''a,b,a'')]\<rparr>"
    by (simp add: globalHash_def globalHashAssets_def entries_def 1 2)
qed

section \<open>Paths that only share a prefix with the root\<close>

lemma toRelPath_outside:
  assumes "path_isAbsolute p" and "\<not> prefix (targetDir this) p"
  shows "toRelPath this p =
     Inl (Error None (''absolute path '' @ p @ '' that is not within target dir '' @ targetDir this))"
  using assms by (simp add: toRelPath_def startsWith_def)

lemma toRelPath_inside:
  assumes "path_isAbsolute (targetDir this)"
  shows "toRelPath this (targetDir this @ ''/'' @ rel) = Inr rel"
proof -
  have "path_isAbsolute (targetDir this @ ''/'' @ rel)"
    using assms by (cases "targetDir this") (auto simp: path_isAbsolute_def)
  then show ?thesis
    by (simp add: toRelPath_def startsWith_def substr_def)
qed

text \<open>
  Claim C5. The claim is that \<open>addSubMap\<close> fails exactly when the root of the
  sub-registry is not nested under the root of the parent. The test of the code is
  \<open>startsWith\<close> on the two strings (lemmas \<open>addSubMap_not_prefix\<close> and
  \<open>addSubMap_nested\<close>), so a root that only shares a prefix is accepted: the registry of
  \<open>/output/themes\<close> is merged into the registry of \<open>/out\<close>, under the prefix
  \<open>ut/themes\<close> that \<open>substr\<close> cuts out.
\<close>

theorem addSubMap_sibling_prefix:
  "newAssetMap ''/home/build'' ''/out'' = \<lparr>targetDir = ''/out'', assets = []\<rparr> \<and>
   fst (snd (writeUnhashed (\<lambda>fs file bytes. Inr ((file, bytes) # fs))
       (newAssetMap ''/home/build'' ''/output/themes'') [] ''a.png'' (Binary ''PNG''))) =
     \<lparr>targetDir = ''/output/themes'', assets = [(''a.png'', ''a.png'')]\<rparr> \<and>
   addSubMap \<lparr>targetDir = ''/out'', assets = []\<rparr>
       \<lparr>targetDir = ''/output/themes'', assets = [(''a.png'', ''a.png'')]\<rparr> =
     Inr \<lparr>targetDir = ''/out'', assets = [(''ut/themes/a.png'', ''ut/themes/a.png'')]\<rparr>"
proof (intro conjI)
  show "newAssetMap ''/home/build'' ''/out'' = \<lparr>targetDir = ''/out'', assets = []\<rparr>"
    by code_simp
  have n: "newAssetMap ''/home/build'' ''/output/themes'' = \<lparr>targetDir = ''/output/themes'', assets = []\<rparr>"
    by code_simp
  have r: "\<not> path_isAbsolute ''a.png''"
    by code_simp
  show "fst (snd (writeUnhashed (\<lambda>fs file bytes. Inr ((file, bytes) # fs))
       (newAssetMap ''/home/build'' ''/output/themes'') [] ''a.png'' (Binary ''PNG''))) =
     \<lparr>targetDir = ''/output/themes'', assets = [(''a.png'', ''a.png'')]\<rparr>"
    by (simp add: n writeUnhashed_registry[OF r])
  have j: "path_join [''ut/themes'', ''a.png''] = ''ut/themes/a.png''"
    by code_simp
  show "addSubMap \<lparr>targetDir = ''/out'', assets = []\<rparr>
       \<lparr>targetDir = ''/output/themes'', assets = [(''a.png'', ''a.png'')]\<rparr> =
     Inr \<lparr>targetDir = ''/out'', assets = [(''ut/themes/a.png'', ''ut/themes/a.png'')]\<rparr>"
    by (simp add: addSubMap_def directory_def startsWith_def substr_def j)
qed

text \<open>
  Claim C6. The claim is that an absolute path outside the root fails and that every key
  is relative to the root. \<open>_toRelPath\<close> fails for an absolute path that does not start
  with the root string (lemma \<open>toRelPath_outside\<close>) and cuts the root off a path under it
  (lemma \<open>toRelPath_inside\<close>); but for the registry of \<open>/out\<close> it accepts \<open>/outx/a.js\<close>,
  which is outside, and registers the absolute key \<open>/a.js\<close>.
\<close>

theorem toRelPath_sibling_prefix:
  "toRelPath \<lparr>targetDir = ''/out'', assets = []\<rparr> ''/outx/a.js'' = Inr ''/a.js'' \<and>
   path_isAbsolute ''/a.js'' \<and>
   writeUnhashed (\<lambda>fs file bytes. Inr ((file, bytes) # fs)) \<lparr>targetDir = ''/out'', assets = []\<rparr> []
       ''/outx/a.js'' (Text (codeUnits ''x'')) =
     (Inr ''/a.js'', \<lparr>targetDir = ''/out'', assets = [(''/a.js'', ''/a.js'')]\<rparr>, [(''/out/a.js'', ''x'')]) \<and>
   resolve \<lparr>targetDir = ''/out'', assets = [(''/a.js'', ''/a.js'')]\<rparr> ''/outx/a.js'' = Inr ''/a.js''"
proof (intro conjI)
  show t: "toRelPath \<lparr>targetDir = ''/out'', assets = []\<rparr> ''/outx/a.js'' = Inr ''/a.js''"
    by (simp add: toRelPath_def path_isAbsolute_def startsWith_def substr_def)
  show "path_isAbsolute ''/a.js''"
    by (simp add: path_isAbsolute_def)
  have j: "path_join [''/out'', ''/a.js''] = ''/out/a.js''"
    by code_simp
  show "writeUnhashed (\<lambda>fs file bytes. Inr ((file, bytes) # fs)) \<lparr>targetDir = ''/out'', assets = []\<rparr> []
       ''/outx/a.js'' (Text (codeUnits ''x'')) =
     (Inr ''/a.js'', \<lparr>targetDir = ''/out'', assets = [(''/a.js'', ''/a.js'')]\<rparr>, [(''/out/a.js'', ''x'')])"
    by (simp add: writeUnhashed_toRelPath[OF t] directory_def fsWrite_def utf8_ascii j)
  show "resolve \<lparr>targetDir = ''/out'', assets = [(''/a.js'', ''/a.js'')]\<rparr> ''/outx/a.js'' = Inr ''/a.js''"
    by (simp add: resolve_def toRelPath_def path_isAbsolute_def startsWith_def substr_def)
qed

end
